theory Spec2Isabelle
  imports Main
begin

section \<open>Documents, errors and Python primitives\<close>

text \<open>
  The development embeds \<^verbatim>\<open>forge/forge/models/json_schema.py\<close>: the class
  \<^verbatim>\<open>JSONSchema\<close> with its codec (\<^verbatim>\<open>to_dict\<close>, \<^verbatim>\<open>from_dict\<close>,
  \<^verbatim>\<open>parse_properties\<close>), its projections (\<^verbatim>\<open>python_type\<close>,
  \<^verbatim>\<open>typescript_type\<close>), the inference \<^verbatim>\<open>from_python_type\<close>, and the module
  function \<^verbatim>\<open>_resolve_type_refs_in_schema\<close>.

  A document is a Python value built from \<^verbatim>\<open>None\<close>, booleans, integers, floats,
  strings, lists and dicts. A dict is an association list in insertion order; Python keeps
  its keys unique, lookups take the first binding. Strings are lists of code points below
  256.
\<close>

subsection \<open>Floats\<close>

text \<open>
  A float is an IEEE 754 double: a sign (true when negative), and either a magnitude
  \<open>m * 2 ^ e\<close>, with \<open>m\<close> odd or \<open>m = 0\<close> and \<open>e = 0\<close>, or infinity; or it is not a
  number.
\<close>

datatype pyfloat =
    Finite bool nat int
  | Infinite bool
  | NaN

fun odd_part :: "nat \<Rightarrow> int \<Rightarrow> nat \<times> int" where
  "odd_part m e =
     (if m = 0 then (0, 0)
      else if even m then odd_part (m div 2) (e + 1)
      else (m, e))"

declare odd_part.simps [simp del]

fun bit_length :: "nat \<Rightarrow> nat" where
  "bit_length n = (if n = 0 then 0 else Suc (bit_length (n div 2)))"

declare bit_length.simps [simp del]

definition round_half_even :: "nat \<Rightarrow> nat \<Rightarrow> nat" where
  "round_half_even p q =
     (let d = p div q; r = p mod q in
      if 2 * r > q \<or> (2 * r = q \<and> odd d) then d + 1 else d)"

text \<open>
  The double nearest to the fraction \<open>p / q\<close>, ties to even: 53 bits of mantissa, the
  exponent not below \<open>-1074\<close> (there the mantissa has fewer bits), and infinity from
  \<open>2 ^ 1024\<close> on.
\<close>

definition to_double :: "bool \<Rightarrow> nat \<Rightarrow> nat \<Rightarrow> pyfloat" where
  "to_double negative p q =
     (if p = 0 then Finite negative 0 0
      else
        (let e0 = int (bit_length p) - int (bit_length q) - 53;
             e1 = (if (if e0 \<ge> 0 then p div (q * 2 ^ nat e0) else (p * 2 ^ nat (- e0)) div q)
                      \<ge> 2 ^ 53 then e0 + 1 else e0);
             e = max e1 (- 1074);
             m = (if e \<ge> 0 then round_half_even p (q * 2 ^ nat e)
                  else round_half_even (p * 2 ^ nat (- e)) q)
         in if e > 971 \<or> (e = 971 \<and> m = 2 ^ 53) then Infinite negative
            else (case odd_part m e of (m', e') \<Rightarrow> Finite negative m' e')))"

text \<open>The double nearest to \<open>c * 10 ^ x\<close>.\<close>

definition decimal_to_double :: "bool \<Rightarrow> nat \<Rightarrow> int \<Rightarrow> pyfloat" where
  "decimal_to_double negative c x =
     (if x \<ge> 0 then to_double negative (c * 10 ^ nat x) 1
      else to_double negative c (10 ^ nat (- x)))"

text \<open>Decimal digits of a natural number, most significant first.\<close>

fun digits :: "nat \<Rightarrow> string" where
  "digits n =
     (if n < 10 then [char_of (48 + n)]
      else digits (n div 10) @ [char_of (48 + n mod 10)])"

declare digits.simps [simp del]

text \<open>
  \<^verbatim>\<open>repr\<close> of a float, which is also its \<^verbatim>\<open>str\<close>: the shortest decimal that reads back as
  the same double and, among those of that length, the nearest. \<open>decimal_exponent p q\<close> is
  the \<open>x\<close> with \<open>10 ^ x \<le> p / q < 10 ^ (x + 1)\<close>; \<open>shortest_with k p q\<close> is the decimal
  with \<open>k\<close> digits, if one reads back as the double of \<open>p / q\<close>. Seventeen digits always do.
  The exponent form is used when the decimal point would come more than sixteen places
  after, or more than three zeros before, the first digit.
\<close>

definition decimal_exponent :: "nat \<Rightarrow> nat \<Rightarrow> int" where
  "decimal_exponent p q =
     (if p \<ge> q then int (length (digits (p div q))) - 1
      else (let j = length (digits (q div p)) in
            if p * 10 ^ (j - 1) \<ge> q then - int (j - 1) else - int j))"

definition scaled :: "nat \<Rightarrow> nat \<Rightarrow> int \<Rightarrow> nat \<times> nat" where
  "scaled p q x = (if x \<ge> 0 then (p, q * 10 ^ nat x) else (p * 10 ^ nat (- x), q))"

definition shortest_with :: "nat \<Rightarrow> nat \<Rightarrow> nat \<Rightarrow> (nat \<times> int) option" where
  "shortest_with k p q =
     (let x = decimal_exponent p q - int k + 1;
          (p', q') = scaled p q x;
          lo = p' div q';
          hi = lo + 1;
          ok_lo = (decimal_to_double False lo x = to_double False p q);
          ok_hi = (decimal_to_double False hi x = to_double False p q);
          r = p' mod q'
      in if ok_lo \<and> ok_hi then
           (if 2 * r < q' \<or> (2 * r = q' \<and> even lo) then Some (lo, x) else Some (hi, x))
         else if ok_lo then Some (lo, x)
         else if ok_hi then Some (hi, x)
         else None)"

fun shortest :: "nat \<Rightarrow> nat \<Rightarrow> nat \<Rightarrow> nat \<Rightarrow> nat \<times> int" where
  "shortest 0 k p q = (0, 0)"
| "shortest (Suc fuel) k p q =
     (case shortest_with k p q of Some cx \<Rightarrow> cx | None \<Rightarrow> shortest fuel (Suc k) p q)"

fun strip_zeros :: "nat \<Rightarrow> int \<Rightarrow> nat \<times> int" where
  "strip_zeros c x =
     (if c = 0 then (0, 0)
      else if c mod 10 = 0 then strip_zeros (c div 10) (x + 1)
      else (c, x))"

declare strip_zeros.simps [simp del]

definition float_repr :: "pyfloat \<Rightarrow> string" where
  "float_repr f =
     (case f of
        NaN \<Rightarrow> ''nan''
      | Infinite negative \<Rightarrow> (if negative then ''-inf'' else ''inf'')
      | Finite negative m e \<Rightarrow>
          (if negative then ''-'' else []) @
          (if m = 0 then ''0.0''
           else
             (let (p, q) = (if e \<ge> 0 then (m * 2 ^ nat e, 1) else (m, 2 ^ nat (- e)));
                  (c, x) = (case shortest 17 1 p q of (c, x) \<Rightarrow> strip_zeros c x);
                  ds = digits c;
                  n = int (length ds);
                  decpt = n + x
              in if decpt \<le> - 4 \<or> decpt > 16 then
                   (let ex = decpt - 1;
                        es = digits (nat \<bar>ex\<bar>)
                    in take 1 ds @ (if n > 1 then ''.'' @ drop 1 ds else []) @ ''e'' @
                       (if ex < 0 then ''-'' else ''+'') @
                       (if length es < 2 then ''0'' @ es else es))
                 else if decpt \<le> 0 then ''0.'' @ replicate (nat (- decpt)) CHR ''0'' @ ds
                 else if decpt \<ge> n then ds @ replicate (nat (decpt - n)) CHR ''0'' @ ''.0''
                 else take (nat decpt) ds @ ''.'' @ drop (nat decpt) ds)))"

text \<open>\<^verbatim>\<open>int(f)\<close> for a float: towards zero; infinity and not-a-number have no integer.\<close>

definition int_of_float :: "pyfloat \<Rightarrow> int option" where
  "int_of_float f =
     (case f of
        Finite negative m e \<Rightarrow>
          (let n = (if e \<ge> 0 then m * 2 ^ nat e else m div 2 ^ nat (- e))
           in Some (if negative then - int n else int n))
      | _ \<Rightarrow> None)"

subsection \<open>Numbers read from strings\<close>

text \<open>
  \<^verbatim>\<open>int(s)\<close> and \<^verbatim>\<open>float(s)\<close> for a string. White space around the number is dropped
  (tab to carriage return, space, and the code points 133 and 160); an underscore may
  stand between two digits; the sign is optional. An integer is digits only. A float is
  \<^verbatim>\<open>inf\<close>, \<^verbatim>\<open>infinity\<close> or \<^verbatim>\<open>nan\<close> in any case, or digits with an optional point and
  an optional exponent, at least one digit before the exponent and one in it; its value
  is the nearest double. \<open>None\<close> is \<^verbatim>\<open>ValueError\<close>.
\<close>

definition number_space :: "char \<Rightarrow> bool" where
  "number_space c = ((of_char c :: nat) \<in> {9, 10, 11, 12, 13, 32, 133, 160})"

definition strip :: "string \<Rightarrow> string" where
  "strip s = rev (dropWhile number_space (rev (dropWhile number_space s)))"

definition is_digit :: "char \<Rightarrow> bool" where
  "is_digit c = (48 \<le> (of_char c :: nat) \<and> (of_char c :: nat) \<le> 57)"

fun underscores_ok :: "char \<Rightarrow> string \<Rightarrow> bool" where
  "underscores_ok prev [] = (prev \<noteq> CHR ''_'')"
| "underscores_ok prev (c # cs) =
     ((if c = CHR ''_'' then is_digit prev else (prev = CHR ''_'' \<longrightarrow> is_digit c)) \<and>
      underscores_ok c cs)"

definition nat_of_digits :: "string \<Rightarrow> nat" where
  "nat_of_digits ds = foldl (\<lambda>n c. 10 * n + (of_char c - 48)) 0 ds"

definition split_sign :: "string \<Rightarrow> bool \<times> string" where
  "split_sign s =
     (case s of
        c # cs \<Rightarrow>
          if c = CHR ''-'' then (True, cs) else if c = CHR ''+'' then (False, cs) else (False, s)
      | [] \<Rightarrow> (False, s))"

definition int_of_str :: "string \<Rightarrow> int option" where
  "int_of_str s =
     (let (negative, body) = split_sign (strip s);
          ds = filter (\<lambda>c. c \<noteq> CHR ''_'') body
      in if ds \<noteq> [] \<and> list_all is_digit ds \<and> underscores_ok CHR ''_'' body
         then Some (if negative then - int (nat_of_digits ds) else int (nat_of_digits ds))
         else None)"

definition lower :: "char \<Rightarrow> char" where
  "lower c =
     (if 65 \<le> (of_char c :: nat) \<and> (of_char c :: nat) \<le> 90 then char_of (of_char c + 32 :: nat)
      else c)"

definition float_of_str :: "string \<Rightarrow> pyfloat option" where
  "float_of_str s =
     (let t = strip s in
      if \<not> underscores_ok CHR 0x00 t then None
      else
        (let (negative, body) = split_sign (filter (\<lambda>c. c \<noteq> CHR ''_'') t);
             word = map lower body
         in if word = ''inf'' \<or> word = ''infinity'' then Some (Infinite negative)
            else if word = ''nan'' then Some NaN
            else
              (let ip = takeWhile is_digit body;
                   r1 = dropWhile is_digit body;
                   r2 = (case r1 of c # cs \<Rightarrow> if c = CHR ''.'' then cs else r1 | [] \<Rightarrow> r1);
                   fp = (if r2 = r1 then [] else takeWhile is_digit r2);
                   r3 = (if r2 = r1 then r1 else dropWhile is_digit r2)
               in if ip @ fp = [] then None
                  else if r3 = [] then
                    Some (decimal_to_double negative (nat_of_digits (ip @ fp)) (- int (length fp)))
                  else
                    (case r3 of
                       c # cs \<Rightarrow>
                         if lower c = CHR ''e'' then
                           (let (eneg, eds) = split_sign cs in
                            if eds \<noteq> [] \<and> list_all is_digit eds then
                              Some (decimal_to_double negative (nat_of_digits (ip @ fp))
                                ((if eneg then - int (nat_of_digits eds) else int (nat_of_digits eds))
                                 - int (length fp)))
                            else None)
                         else None
                     | [] \<Rightarrow> None))))"

subsection \<open>Documents\<close>

datatype json =
    JNull
  | JBool bool
  | JInt int
  | JFloat pyfloat
  | JStr string
  | JList "json list"
  | JDict "(string \<times> json) list"

text \<open>The exceptions the module can raise, by Python class.\<close>

datatype error =
    KeyError string
  | TypeError
  | AttributeError
  | IndexError
  | ValueError
  | SyntaxError
  | RecursionError
  | ValidationError
  | NotImplementedError
  | InvalidAddress

text \<open>
  A comprehension whose element expression can raise: the elements are computed from left
  to right and the first exception ends the loop.
\<close>

fun mapM :: "('a \<Rightarrow> error + 'b) \<Rightarrow> 'a list \<Rightarrow> error + 'b list" where
  "mapM f [] = Inr []"
| "mapM f (x # xs) =
     (case f x of
        Inl e \<Rightarrow> Inl e
      | Inr y \<Rightarrow> (case mapM f xs of Inl e \<Rightarrow> Inl e | Inr ys \<Rightarrow> Inr (y # ys)))"

text \<open>\<^verbatim>\<open>k in d\<close> and \<^verbatim>\<open>d.get(k)\<close> on a dict.\<close>

definition has_key :: "(string \<times> 'v) list \<Rightarrow> string \<Rightarrow> bool" where
  "has_key kvs k = (k \<in> set (map fst kvs))"

definition dict_get :: "(string \<times> json) list \<Rightarrow> string \<Rightarrow> json" where
  "dict_get kvs k = (case map_of kvs k of None \<Rightarrow> JNull | Some v \<Rightarrow> v)"

text \<open>Truth value of a Python object, as \<^verbatim>\<open>if x\<close> tests it.\<close>

fun truthy :: "json \<Rightarrow> bool" where
  "truthy JNull = False"
| "truthy (JBool b) = b"
| "truthy (JInt i) = (i \<noteq> 0)"
| "truthy (JFloat f) = (case f of Finite negative m e \<Rightarrow> m \<noteq> 0 | _ \<Rightarrow> True)"
| "truthy (JStr s) = (s \<noteq> [])"
| "truthy (JList xs) = (xs \<noteq> [])"
| "truthy (JDict kvs) = (kvs \<noteq> [])"

text \<open>\<^verbatim>\<open>s.split(sep)\<close> for a one-character separator: every occurrence splits.\<close>

fun split_on :: "char \<Rightarrow> string \<Rightarrow> string list" where
  "split_on c [] = [[]]"
| "split_on c (x # xs) =
     (if x = c then [] # split_on c xs
      else (case split_on c xs of [] \<Rightarrow> [[x]] | w # ws \<Rightarrow> (x # w) # ws))"

text \<open>\<^verbatim>\<open>v[key]\<close> with a string key.\<close>

fun subscript :: "json \<Rightarrow> string \<Rightarrow> error + json" where
  "subscript (JDict kvs) key =
     (case map_of kvs key of None \<Rightarrow> Inl (KeyError key) | Some v \<Rightarrow> Inr v)"
| "subscript _ key = Inl TypeError"

section \<open>The reference resolver\<close>

text \<open>
  \<^verbatim>\<open>
  ref_path = schema["$ref"].split("/")[2:]
  ref_value = definitions
  for key in ref_path:
      ref_value = ref_value[key]
  \<close>
\<close>

definition ref_path :: "string \<Rightarrow> string list" where
  "ref_path s = drop 2 (split_on CHR ''/'' s)"

fun follow :: "json \<Rightarrow> string list \<Rightarrow> error + json" where
  "follow ref_value [] = Inr ref_value"
| "follow ref_value (key # keys) =
     (case subscript ref_value key of Inl e \<Rightarrow> Inl e | Inr v \<Rightarrow> follow v keys)"

text \<open>
  \<^verbatim>\<open>_resolve_type_refs_in_schema(schema, definitions)\<close>. The first argument counts the
  stack frames that are left: Python raises \<^verbatim>\<open>RecursionError\<close> when a call would exceed
  the recursion limit, which is what happens on a cyclic chain of references.
\<close>

fun resolve :: "nat \<Rightarrow> json \<Rightarrow> json \<Rightarrow> error + json" where
  "resolve 0 schema definitions = Inl RecursionError"
| "resolve (Suc n) (JDict kvs) definitions =
     (if has_key kvs ''$ref'' then
        (case dict_get kvs ''$ref'' of
           JStr s \<Rightarrow>
             (case follow definitions (ref_path s) of
                Inl e \<Rightarrow> Inl e
              | Inr ref_value \<Rightarrow> resolve n ref_value definitions)
         | _ \<Rightarrow> Inl AttributeError)
      else
        (case mapM (\<lambda>(k, v). case resolve n v definitions of
                                Inl e \<Rightarrow> Inl e | Inr v' \<Rightarrow> Inr (k, v')) kvs of
           Inl e \<Rightarrow> Inl e
         | Inr kvs' \<Rightarrow> Inr (JDict kvs')))"
| "resolve (Suc n) (JList xs) definitions =
     (case mapM (\<lambda>item. resolve n item definitions) xs of
        Inl e \<Rightarrow> Inl e
      | Inr ys \<Rightarrow> Inr (JList ys))"
| "resolve (Suc n) schema definitions = Inr schema"

section \<open>Text primitives\<close>

text \<open>\<^verbatim>\<open>sep.join(parts)\<close>.\<close>

fun join :: "string \<Rightarrow> string list \<Rightarrow> string" where
  "join sep [] = []"
| "join sep [x] = x"
| "join sep (x # y # ys) = x @ sep @ join sep (y # ys)"

definition hex_digit :: "nat \<Rightarrow> char" where
  "hex_digit n = (if n < 10 then char_of (48 + n) else char_of (87 + n))"

text \<open>
  \<^verbatim>\<open>repr\<close> of a string. The quote is the double quote when the string has a single quote
  and no double quote, the single quote otherwise; the quote and the backslash are escaped,
  tab, newline and carriage return are written \<^verbatim>\<open>\t\<close>, \<^verbatim>\<open>\n\<close>, \<^verbatim>\<open>\r\<close>, and every
  other code point that is not printable is written \<^verbatim>\<open>\xhh\<close>.
\<close>

definition printable :: "char \<Rightarrow> bool" where
  "printable c =
     (let n = (of_char c :: nat) in (32 \<le> n \<and> n < 127) \<or> (161 \<le> n \<and> n \<noteq> 173))"

definition repr_char :: "char \<Rightarrow> char \<Rightarrow> string" where
  "repr_char quote c =
     (if c = quote \<or> c = CHR 0x5C then [CHR 0x5C, c]
      else if c = CHR 0x09 then [CHR 0x5C, CHR ''t'']
      else if c = CHR 0x0A then [CHR 0x5C, CHR ''n'']
      else if c = CHR 0x0D then [CHR 0x5C, CHR ''r'']
      else if printable c then [c]
      else [CHR 0x5C, CHR ''x'',
            hex_digit ((of_char c :: nat) div 16), hex_digit ((of_char c :: nat) mod 16)])"

definition repr_str :: "string \<Rightarrow> string" where
  "repr_str s =
     (let quote = (if CHR 0x27 \<in> set s \<and> CHR 0x22 \<notin> set s then CHR 0x22 else CHR 0x27)
      in quote # concat (map (repr_char quote) s) @ [quote])"

text \<open>\<^verbatim>\<open>repr\<close> of a value.\<close>

fun py_repr :: "json \<Rightarrow> string" where
  "py_repr JNull = ''None''"
| "py_repr (JBool b) = (if b then ''True'' else ''False'')"
| "py_repr (JInt i) = (if i < 0 then CHR ''-'' # digits (nat (- i)) else digits (nat i))"
| "py_repr (JFloat f) = float_repr f"
| "py_repr (JStr s) = repr_str s"
| "py_repr (JList xs) = ''['' @ join '', '' (map py_repr xs) @ '']''"
| "py_repr (JDict kvs) =
     ''{'' @ join '', '' (map (\<lambda>kv. repr_str (fst kv) @ '': '' @ py_repr (snd kv)) kvs) @ ''}''"

text \<open>
  \<^verbatim>\<open>textwrap.indent(text, prefix)\<close>: the prefix goes before every line that has a character
  other than white space; lines keep their endings (\<^verbatim>\<open>str.splitlines(True)\<close>).
\<close>

definition line_break :: "char \<Rightarrow> bool" where
  "line_break c = ((of_char c :: nat) \<in> {10, 11, 12, 13, 28, 29, 30, 133})"

definition white_space :: "char \<Rightarrow> bool" where
  "white_space c = ((of_char c :: nat) \<in> {9, 10, 11, 12, 13, 28, 29, 30, 31, 32, 133, 160})"

fun splitlines :: "string \<Rightarrow> string \<Rightarrow> string list" where
  "splitlines cur [] = (if cur = [] then [] else [cur])"
| "splitlines cur [c] = [cur @ [c]]"
| "splitlines cur (c # d # cs) =
     (if c = CHR 0x0D \<and> d = CHR 0x0A then (cur @ [c, d]) # splitlines [] cs
      else if line_break c then (cur @ [c]) # splitlines [] (d # cs)
      else splitlines (cur @ [c]) (d # cs))"

definition indent :: "string \<Rightarrow> string \<Rightarrow> string" where
  "indent text prefix =
     concat (map (\<lambda>line. if list_ex (\<lambda>c. \<not> white_space c) line then prefix @ line else line)
                 (splitlines [] text))"

section \<open>The schema node\<close>

datatype Type = STRING | ARRAY | OBJECT | NUMBER | INTEGER | BOOLEAN | TYPE'

fun type_value :: "Type \<Rightarrow> string" where
  "type_value STRING = ''string''"
| "type_value ARRAY = ''array''"
| "type_value OBJECT = ''object''"
| "type_value NUMBER = ''number''"
| "type_value INTEGER = ''integer''"
| "type_value BOOLEAN = ''boolean''"
| "type_value TYPE' = ''type''"

text \<open>A value of \<^verbatim>\<open>int | float\<close>, the type of the two numeric bounds.\<close>

datatype number = IntNumber int | FloatNumber pyfloat

fun number_json :: "number \<Rightarrow> json" where
  "number_json (IntNumber i) = JInt i"
| "number_json (FloatNumber f) = JFloat f"

text \<open>
  The class \<^verbatim>\<open>JSONSchema\<close>. The fields \<^verbatim>\<open>enum\<close> and \<^verbatim>\<open>default\<close> are named
  \<open>enum_values\<close> and \<open>default_value\<close>; an absent \<^verbatim>\<open>default\<close> is the value \<^verbatim>\<open>None\<close>.
\<close>

datatype node = Node
  (description: "string option")
  (type: "Type option")
  (enum_values: "json list option")
  (required: bool)
  (default_value: json)
  (items: "node option")
  (properties: "(string \<times> node) list option")
  (additional_properties: "node option")
  (minimum: "number option")
  (maximum: "number option")
  (minItems: "int option")
  (maxItems: "int option")

text \<open>\<^verbatim>\<open>JSONSchema()\<close>: every field at its declared default.\<close>

definition JSONSchema :: node where
  "JSONSchema = Node None None None False JNull None None None None None None None"

definition set_required :: "bool \<Rightarrow> node \<Rightarrow> node" where
  "set_required b n =
     Node (description n) (type n) (enum_values n) b (default_value n) (items n)
       (properties n) (additional_properties n) (minimum n) (maximum n) (minItems n) (maxItems n)"

section \<open>Encoding\<close>

text \<open>\<^verbatim>\<open>d[k] = v\<close>: a key that is there keeps its place, a new key goes last.\<close>

fun dict_set :: "(string \<times> json) list \<Rightarrow> string \<Rightarrow> json \<Rightarrow> (string \<times> json) list" where
  "dict_set [] k v = [(k, v)]"
| "dict_set ((k', v') # kvs) k v =
     (if k' = k then (k, v) # kvs else (k', v') # dict_set kvs k v)"

definition opt_json :: "('a \<Rightarrow> json) \<Rightarrow> 'a option \<Rightarrow> json" where
  "opt_json f x = (case x of None \<Rightarrow> JNull | Some a \<Rightarrow> f a)"

text \<open>
  \<^verbatim>\<open>JSONSchema.to_dict\<close>. The three recursive calls are \<open>map_option to_dict itms\<close>,
  the comprehension over \<^verbatim>\<open>self.properties.items()\<close>, and
  \<open>map_option to_dict addl\<close>; a model instance is always true, a dict or a list is true
  when it is not empty.
\<close>

primrec to_dict :: "node \<Rightarrow> (string \<times> json) list" where
  "to_dict (Node descr tp enm req dflt itms props addl minm maxm minI maxI) =
     (let schema =
            [(''type'', opt_json (\<lambda>t. JStr (type_value t)) tp),
             (''description'', opt_json JStr descr),
             (''default'', JStr (py_repr dflt))];
          schema =
            (if tp = Some ARRAY then
               (let schema =
                      (case map_option to_dict itms of
                         Some d \<Rightarrow> dict_set schema ''items'' (JDict d)
                       | None \<Rightarrow> schema);
                    schema = dict_set schema ''minItems'' (opt_json JInt minI)
                in dict_set schema ''maxItems'' (opt_json JInt maxI))
             else if tp = Some OBJECT then
               (let schema =
                      (case map_option (map (map_prod id to_dict)) props of
                         Some (p # ps) \<Rightarrow>
                           dict_set
                             (dict_set schema ''properties''
                                (JDict (map (\<lambda>(name, d). (name, JDict d)) (p # ps))))
                             ''required''
                             (JList (map (\<lambda>(name, prop). JStr name)
                                (filter (\<lambda>(name, prop). required prop) (the props))))
                       | _ \<Rightarrow> schema)
                in (case map_option to_dict addl of
                      Some d \<Rightarrow> dict_set schema ''additionalProperties'' (JDict d)
                    | None \<Rightarrow> schema))
             else if enm \<noteq> None \<and> enm \<noteq> Some [] then
               dict_set schema ''enum'' (JList (the enm))
             else
               dict_set (dict_set schema ''minumum'' (opt_json number_json minm))
                 ''maximum'' (opt_json number_json maxm))
      in filter (\<lambda>(k, v). v \<noteq> JNull) schema)"

section \<open>Decoding\<close>

text \<open>Sequencing of computations that can raise.\<close>

definition and_then :: "error + 'a \<Rightarrow> ('a \<Rightarrow> error + 'b) \<Rightarrow> error + 'b" where
  "and_then m f = (case m of Inl e \<Rightarrow> Inl e | Inr x \<Rightarrow> f x)"

text \<open>
  The field validation of the model class (pydantic 1.10), by declared type. \<^verbatim>\<open>None\<close> is
  the absent field of every \<^verbatim>\<open>Optional\<close>; a value that no conversion accepts is
  reported as a validation error.

  \<^item> \<^verbatim>\<open>str\<close>: a string as it is; an integer, a boolean or a float through \<^verbatim>\<open>str\<close>.
  \<^item> \<^verbatim>\<open>int\<close>: an integer as it is; anything else through \<^verbatim>\<open>int\<close>, which reads a
    boolean as 0 or 1, cuts a float towards zero and parses a string, a string of more than
    4300 characters being refused before.
  \<^item> \<^verbatim>\<open>float\<close>: a float as it is; a string through \<^verbatim>\<open>float\<close>.
  \<^item> \<^verbatim>\<open>int | float\<close>: the first of the two, in this order, that accepts the value.
  \<^item> \<^verbatim>\<open>Type\<close>: the member of the enumeration with this value.
  \<^item> \<^verbatim>\<open>list\<close>: a list as it is.
\<close>

fun str_validator :: "json \<Rightarrow> string option" where
  "str_validator (JStr s) = Some s"
| "str_validator (JInt i) = Some (py_repr (JInt i))"
| "str_validator (JBool b) = Some (py_repr (JBool b))"
| "str_validator (JFloat f) = Some (float_repr f)"
| "str_validator _ = None"

fun int_validator :: "json \<Rightarrow> int option" where
  "int_validator (JInt i) = Some i"
| "int_validator (JBool b) = Some (if b then 1 else 0)"
| "int_validator (JFloat f) = int_of_float f"
| "int_validator (JStr s) = (if length s > 4300 then None else int_of_str s)"
| "int_validator _ = None"

text \<open>
  The float validation is reached only with a value that the integer validation refused:
  a float that is infinite or not a number, a string, a list or a dict.
\<close>

fun float_validator :: "json \<Rightarrow> pyfloat option" where
  "float_validator (JFloat f) = Some f"
| "float_validator (JStr s) = float_of_str s"
| "float_validator _ = None"

definition number_validator :: "json \<Rightarrow> number option" where
  "number_validator v =
     (case int_validator v of
        Some i \<Rightarrow> Some (IntNumber i)
      | None \<Rightarrow> map_option FloatNumber (float_validator v))"

definition optional :: "(json \<Rightarrow> 'a option) \<Rightarrow> json \<Rightarrow> error + 'a option" where
  "optional validator v =
     (if v = JNull then Inr None
      else (case validator v of None \<Rightarrow> Inl ValidationError | Some x \<Rightarrow> Inr (Some x)))"

definition validate_str :: "json \<Rightarrow> error + string option" where
  "validate_str = optional str_validator"

definition type_of_value :: "string \<Rightarrow> Type option" where
  "type_of_value s =
     (if s = ''string'' then Some STRING
      else if s = ''array'' then Some ARRAY
      else if s = ''object'' then Some OBJECT
      else if s = ''number'' then Some NUMBER
      else if s = ''integer'' then Some INTEGER
      else if s = ''boolean'' then Some BOOLEAN
      else if s = ''type'' then Some TYPE'
      else None)"

fun validate_type :: "json \<Rightarrow> error + Type option" where
  "validate_type JNull = Inr None"
| "validate_type (JStr s) =
     (case type_of_value s of None \<Rightarrow> Inl ValidationError | Some t \<Rightarrow> Inr (Some t))"
| "validate_type _ = Inl ValidationError"

fun validate_list :: "json \<Rightarrow> error + json list option" where
  "validate_list JNull = Inr None"
| "validate_list (JList xs) = Inr (Some xs)"
| "validate_list _ = Inl ValidationError"

definition validate_int :: "json \<Rightarrow> error + int option" where
  "validate_int = optional int_validator"

definition validate_number :: "json \<Rightarrow> error + number option" where
  "validate_number = optional number_validator"

text \<open>\<^verbatim>\<open>k in c\<close> for a string \<open>k\<close>: membership in a list, key of a dict, substring of a string.\<close>

fun starts_with :: "string \<Rightarrow> string \<Rightarrow> bool" where
  "starts_with [] s = True"
| "starts_with (x # xs) [] = False"
| "starts_with (x # xs) (y # ys) = (x = y \<and> starts_with xs ys)"

fun contains_str :: "string \<Rightarrow> string \<Rightarrow> bool" where
  "contains_str sub [] = (sub = [])"
| "contains_str sub (y # ys) = (starts_with sub (y # ys) \<or> contains_str sub ys)"

fun py_in :: "string \<Rightarrow> json \<Rightarrow> error + bool" where
  "py_in k (JList xs) = Inr (JStr k \<in> set xs)"
| "py_in k (JDict kvs) = Inr (has_key kvs k)"
| "py_in k (JStr s) = Inr (contains_str k s)"
| "py_in k _ = Inl TypeError"

text \<open>\<^verbatim>\<open>schema.get("definitions", {})\<close>.\<close>

definition definitions_of :: "(string \<times> json) list \<Rightarrow> json" where
  "definitions_of kvs =
     (if has_key kvs ''definitions'' then dict_get kvs ''definitions'' else JDict [])"

text \<open>
  \<^verbatim>\<open>JSONSchema.from_dict\<close> and \<^verbatim>\<open>JSONSchema.parse_properties\<close>. The argument
  \<open>literal_eval\<close> stands for \<^verbatim>\<open>ast.literal_eval\<close> on strings (on a value that is not a
  string it raises \<^verbatim>\<open>ValueError\<close>); the number counts the stack frames that are left.
  The keyword arguments of the constructor are evaluated in the order of the source, so the
  first one that raises decides the exception; the validation of the fields comes last.
\<close>

fun from_dict :: "(string \<Rightarrow> error + json) \<Rightarrow> nat \<Rightarrow> json \<Rightarrow> error + node"
  and parse_properties ::
    "(string \<Rightarrow> error + json) \<Rightarrow> nat \<Rightarrow> (string \<times> json) list \<Rightarrow> error + (string \<times> node) list"
where
  "from_dict literal_eval 0 schema = Inl RecursionError"
| "from_dict literal_eval (Suc n) schema =
     (case schema of
        JDict kvs0 \<Rightarrow>
          and_then (resolve n schema (definitions_of kvs0)) (\<lambda>resolved.
            case resolved of
              JDict kvs \<Rightarrow>
                if \<not> has_key kvs ''type'' then Inl (KeyError ''type'')
                else
                  and_then
                    (let d = dict_get kvs ''default'' in
                     if truthy d then (case d of JStr s \<Rightarrow> literal_eval s | _ \<Rightarrow> Inl ValueError)
                     else Inr JNull) (\<lambda>dflt.
                  and_then
                    (let i = dict_get kvs ''items'' in
                     if truthy i then and_then (from_dict literal_eval n i) (\<lambda>c. Inr (Some c))
                     else Inr None) (\<lambda>itms.
                  and_then
                    (if dict_get kvs ''type'' = JStr ''object''
                     then and_then (parse_properties literal_eval n kvs) (\<lambda>ps. Inr (Some ps))
                     else Inr None) (\<lambda>props.
                  and_then
                    (let ap = dict_get kvs ''additionalProperties'' in
                     if dict_get kvs ''type'' = JStr ''object'' \<and> truthy ap
                     then and_then (from_dict literal_eval n ap) (\<lambda>c. Inr (Some c))
                     else Inr None) (\<lambda>addl.
                  and_then (validate_str (dict_get kvs ''description'')) (\<lambda>descr.
                  and_then (validate_type (dict_get kvs ''type'')) (\<lambda>tp.
                  and_then (validate_list (dict_get kvs ''enum'')) (\<lambda>enm.
                  and_then (validate_number (dict_get kvs ''minimum'')) (\<lambda>minm.
                  and_then (validate_number (dict_get kvs ''maximum'')) (\<lambda>maxm.
                  and_then (validate_int (dict_get kvs ''minItems'')) (\<lambda>minI.
                  and_then (validate_int (dict_get kvs ''maxItems'')) (\<lambda>maxI.
                    Inr (Node descr tp enm False dflt itms props addl
                           minm maxm minI maxI))))))))))))
            | _ \<Rightarrow> Inl AttributeError)
      | _ \<Rightarrow> Inl AttributeError)"
| "parse_properties literal_eval 0 schema_node = Inl RecursionError"
| "parse_properties literal_eval (Suc n) schema_node =
     and_then
       (if has_key schema_node ''properties'' then
          (case dict_get schema_node ''properties'' of
             JDict ps \<Rightarrow>
               mapM (\<lambda>(k, v). and_then (from_dict literal_eval n v) (\<lambda>c. Inr (k, c))) ps
           | _ \<Rightarrow> Inl AttributeError)
        else Inr []) (\<lambda>properties.
     if has_key schema_node ''required'' then
       mapM (\<lambda>(k, v). and_then (py_in k (dict_get schema_node ''required''))
                          (\<lambda>b. Inr (k, set_required b v))) properties
     else Inr properties)"

section \<open>Projections to type strings\<close>

text \<open>
  \<^verbatim>\<open>_JSON_TO_PYTHON_TYPE\<close>, the inverse of \<^verbatim>\<open>_PYTHON_TO_JSON_TYPE\<close>, read through
  \<^verbatim>\<open>__name__\<close>.
\<close>

fun json_to_python_type :: "Type \<Rightarrow> string option" where
  "json_to_python_type INTEGER = Some ''int''"
| "json_to_python_type STRING = Some ''str''"
| "json_to_python_type BOOLEAN = Some ''bool''"
| "json_to_python_type NUMBER = Some ''float''"
| "json_to_python_type _ = None"

text \<open>\<^verbatim>\<open>JSONSchema.python_type\<close>.\<close>

primrec python_type :: "node \<Rightarrow> error + string" where
  "python_type (Node descr tp enm req dflt itms props addl minm maxm minI maxI) =
     (if tp \<noteq> None \<and> json_to_python_type (the tp) \<noteq> None then
        Inr (the (json_to_python_type (the tp)))
      else if tp = Some ARRAY then
        (case map_option python_type itms of
           Some r \<Rightarrow> and_then r (\<lambda>t. Inr (''list['' @ t @ '']''))
         | None \<Rightarrow> Inr ''list'')
      else if tp = Some OBJECT then
        (if props = None \<or> props = Some [] then Inr ''dict''
         else Inl NotImplementedError)
      else if enm \<noteq> None \<and> enm \<noteq> Some [] then
        Inr (''Union['' @ join '', '' (map py_repr (the enm)) @ '']'')
      else if tp = Some TYPE' then Inr ''type''
      else if tp = None then Inr ''Any''
      else Inl NotImplementedError)"

text \<open>
  The body of \<^verbatim>\<open>to_typescript_object_interface\<close> after its check of the kind, from the
  properties and the type strings of the properties.
\<close>

definition attribute_lines :: "string \<times> node \<Rightarrow> string \<times> (error + string) \<Rightarrow> error + string list" where
  "attribute_lines np nt =
     and_then (snd nt) (\<lambda>t.
       Inr ((case description (snd np) of
               Some d \<Rightarrow> if d \<noteq> [] then [''// '' @ d] else []
             | None \<Rightarrow> [])
            @ [fst np @ '': '' @ t @ '';'']))"

definition object_interface ::
  "string \<Rightarrow> (string \<times> node) list \<Rightarrow> (string \<times> (error + string)) list \<Rightarrow> error + string" where
  "object_interface interface_name props types =
     and_then
       (if props \<noteq> [] then
          and_then (mapM (\<lambda>(np, nt). attribute_lines np nt) (zip props types))
            (\<lambda>attributes. Inr (join [CHR 0x0A] (concat attributes)))
        else Inr ''[key: string]: any'') (\<lambda>attributes_string.
     Inr ((if interface_name \<noteq> [] then ''interface '' @ interface_name @ '' '' else [])
          @ ''{'' @ [CHR 0x0A] @ indent attributes_string ''  '' @ [CHR 0x0A] @ ''}''))"

text \<open>\<^verbatim>\<open>JSONSchema.typescript_type\<close>.\<close>

primrec typescript_type :: "node \<Rightarrow> error + string" where
  "typescript_type (Node descr tp enm req dflt itms props addl minm maxm minI maxI) =
     (if tp = None then Inr ''any''
      else if tp = Some BOOLEAN then Inr ''boolean''
      else if tp = Some INTEGER \<or> tp = Some NUMBER then Inr ''number''
      else if tp = Some STRING then Inr ''string''
      else if tp = Some ARRAY then
        (case map_option typescript_type itms of
           Some r \<Rightarrow> and_then r (\<lambda>t. Inr (''Array<'' @ t @ ''>''))
         | None \<Rightarrow> Inr ''Array'')
      else if tp = Some OBJECT then
        (case map_option (map (map_prod id typescript_type)) props of
           Some (t # ts) \<Rightarrow> object_interface [] (the props) (t # ts)
         | _ \<Rightarrow> Inr ''Record<string, any>'')
      else if enm \<noteq> None \<and> enm \<noteq> Some [] then
        Inr (join '' | '' (map py_repr (the enm)))
      else if tp = Some TYPE' then Inr ''type''
      else if tp = None then Inr ''any''
      else Inl NotImplementedError)"

text \<open>\<^verbatim>\<open>JSONSchema.to_typescript_object_interface\<close>.\<close>

definition to_typescript_object_interface :: "node \<Rightarrow> string \<Rightarrow> error + string" where
  "to_typescript_object_interface self interface_name =
     (if type self \<noteq> Some OBJECT then Inl NotImplementedError
      else
        (let props = (case properties self of None \<Rightarrow> [] | Some ps \<Rightarrow> ps)
         in object_interface interface_name props (map (map_prod id typescript_type) props)))"

section \<open>Inference from a native type\<close>

text \<open>
  What \<^verbatim>\<open>from_python_type\<close> observes of its argument: the classes of the table, the
  class of \<^verbatim>\<open>None\<close>, the classes \<^verbatim>\<open>list\<close> and \<^verbatim>\<open>dict\<close>, a \<^verbatim>\<open>typing\<close> alias with its
  origin and arguments (\<^verbatim>\<open>list[str]\<close>, \<^verbatim>\<open>Optional[int]\<close>), a model class with the
  document its \<^verbatim>\<open>schema()\<close> returns, a typed dict with its annotations, and any other class.
\<close>

datatype origin = Union | ListOrigin | DictOrigin | OtherOrigin

datatype pytype =
    PyInt | PyStr | PyBool | PyFloat
  | NoneType
  | PyList
  | PyDict
  | Alias origin "pytype list"
  | ModelClass json
  | TypedDictClass "(string \<times> pytype) list"
  | OtherClass

fun python_to_json_type :: "pytype \<Rightarrow> Type option" where
  "python_to_json_type PyInt = Some INTEGER"
| "python_to_json_type PyStr = Some STRING"
| "python_to_json_type PyBool = Some BOOLEAN"
| "python_to_json_type PyFloat = Some NUMBER"
| "python_to_json_type _ = None"

fun get_origin :: "pytype \<Rightarrow> origin option" where
  "get_origin (Alias origin args) = Some origin"
| "get_origin _ = None"

fun get_args :: "pytype \<Rightarrow> pytype list" where
  "get_args (Alias origin args) = args"
| "get_args _ = []"

text \<open>
  \<^verbatim>\<open>issubclass(T, BaseModel)\<close>. The metaclass of the model base class derives from
  \<^verbatim>\<open>ABCMeta\<close>, whose subclass check raises \<^verbatim>\<open>TypeError\<close> when its argument is not a
  class, as a \<^verbatim>\<open>typing\<close> alias is not.
\<close>

fun issubclass_BaseModel :: "pytype \<Rightarrow> error + bool" where
  "issubclass_BaseModel (Alias origin args) = Inl TypeError"
| "issubclass_BaseModel (ModelClass schema) = Inr True"
| "issubclass_BaseModel _ = Inr False"

text \<open>\<^verbatim>\<open>xs[0]\<close> and \<^verbatim>\<open>xs[1]\<close> on a tuple.\<close>

fun index :: "'a list \<Rightarrow> nat \<Rightarrow> error + 'a" where
  "index [] i = Inl IndexError"
| "index (x # xs) 0 = Inr x"
| "index (x # xs) (Suc i) = index xs i"

text \<open>\<^verbatim>\<open>JSONSchema.from_python_type\<close>.\<close>

fun from_python_type :: "(string \<Rightarrow> error + json) \<Rightarrow> nat \<Rightarrow> pytype \<Rightarrow> error + node" where
  "from_python_type literal_eval 0 T = Inl RecursionError"
| "from_python_type literal_eval (Suc n) T =
     (case python_to_json_type T of
        Some t \<Rightarrow>
          Inr (set_required True
                 (Node None (Some t) None True JNull None None None None None None None))
      | None \<Rightarrow>
          and_then
            (if get_origin T = Some Union then
               (case get_args T of
                  [] \<Rightarrow> Inl IndexError
                | a # as \<Rightarrow> Inr (last (a # as) = NoneType))
             else Inr False) (\<lambda>optional.
          if optional then
            (if length (butlast (get_args T)) > 1 then Inl NotImplementedError
             else
               and_then (index (get_args T) 0) (\<lambda>T0.
               and_then (from_python_type literal_eval n T0) (\<lambda>partial_schema.
                 Inr (set_required False partial_schema))))
          else
            and_then (issubclass_BaseModel T) (\<lambda>is_model.
            and_then
              (if is_model then
                 (case T of
                    ModelClass schema \<Rightarrow> from_dict literal_eval n schema
                  | _ \<Rightarrow> Inl AttributeError)
               else if T = PyList \<or> get_origin T = Some ListOrigin then
                 and_then (index (get_args T) 0) (\<lambda>T_v.
                 and_then (from_python_type literal_eval n T_v) (\<lambda>c.
                   Inr (Node None (Some ARRAY) None False JNull (Some c) None None
                          None None None None)))
               else if T = PyDict \<or> get_origin T = Some DictOrigin then
                 and_then (index (get_args T) 1) (\<lambda>T_v.
                 and_then (from_python_type literal_eval n T_v) (\<lambda>c.
                   Inr (Node None (Some OBJECT) None False JNull None None (Some c)
                          None None None None)))
               else
                 (case T of
                    TypedDictClass annotations \<Rightarrow>
                      and_then
                        (mapM (\<lambda>(k, v). and_then (from_python_type literal_eval n v)
                                           (\<lambda>c. Inr (k, c))) annotations)
                        (\<lambda>props.
                           Inr (Node None (Some OBJECT) None False JNull None (Some props)
                                  None None None None None))
                  | _ \<Rightarrow> Inl TypeError)) (\<lambda>partial_schema.
              Inr (set_required True partial_schema)))))"

text \<open>
  A stand-in for \<^verbatim>\<open>ast.literal_eval\<close> that reads the three keyword literals, for
  evaluating examples.
\<close>

definition literal_eval_keywords :: "string \<Rightarrow> error + json" where
  "literal_eval_keywords s =
     (if s = ''None'' then Inr JNull
      else if s = ''True'' then Inr (JBool True)
      else if s = ''False'' then Inr (JBool False)
      else Inl ValueError)"

section \<open>The resolver on a store\<close>

text \<open>
  Python passes references: the document and the definitions table are objects that the
  caller still holds after the call. In this second model of
  \<^verbatim>\<open>_resolve_type_refs_in_schema\<close> a store holds the objects, an address is an index into
  it, a container holds the addresses of its elements, and a comprehension allocates its
  result at the next free address. The source has no assignment to, and calls no mutating
  method on, an object it was given; the model therefore only ever extends the store.
\<close>

type_synonym addr = nat

datatype obj =
    NoneObj
  | BoolObj bool
  | IntObj int
  | FloatObj pyfloat
  | StrObj string
  | ListObj "addr list"
  | DictObj "(string \<times> addr) list"

type_synonym store = "obj list"

definition deref :: "store \<Rightarrow> addr \<Rightarrow> obj option" where
  "deref h a = (if a < length h then Some (h ! a) else None)"

definition alloc :: "store \<Rightarrow> obj \<Rightarrow> addr \<times> store" where
  "alloc h obj = (length h, h @ [obj])"

text \<open>
  An address outside the store cannot come up in Python; the model reports it as
  \<open>InvalidAddress\<close> so that it never reads an unspecified object.
\<close>

fun follow_s :: "store \<Rightarrow> addr \<Rightarrow> string list \<Rightarrow> error + addr" where
  "follow_s h ref_value [] = Inr ref_value"
| "follow_s h ref_value (key # keys) =
     (case deref h ref_value of
        None \<Rightarrow> Inl InvalidAddress
      | Some (DictObj kvs) \<Rightarrow>
          (case map_of kvs key of
             None \<Rightarrow> Inl (KeyError key)
           | Some v \<Rightarrow> follow_s h v keys)
      | Some _ \<Rightarrow> Inl TypeError)"

fun mapM_s :: "(store \<Rightarrow> 'a \<Rightarrow> error + 'b \<times> store) \<Rightarrow> store \<Rightarrow> 'a list \<Rightarrow> error + 'b list \<times> store" where
  "mapM_s f h [] = Inr ([], h)"
| "mapM_s f h (x # xs) =
     (case f h x of
        Inl e \<Rightarrow> Inl e
      | Inr (y, h1) \<Rightarrow>
          (case mapM_s f h1 xs of
             Inl e \<Rightarrow> Inl e
           | Inr (ys, h2) \<Rightarrow> Inr (y # ys, h2)))"

fun resolve_s :: "nat \<Rightarrow> store \<Rightarrow> addr \<Rightarrow> addr \<Rightarrow> error + addr \<times> store" where
  "resolve_s 0 h schema definitions = Inl RecursionError"
| "resolve_s (Suc n) h schema definitions =
     (case deref h schema of
        None \<Rightarrow> Inl InvalidAddress
      | Some (DictObj kvs) \<Rightarrow>
          if has_key kvs ''$ref'' then
            (case map_of kvs ''$ref'' of
               None \<Rightarrow> Inl InvalidAddress
             | Some a \<Rightarrow>
                 (case deref h a of
                    None \<Rightarrow> Inl InvalidAddress
                  | Some (StrObj s) \<Rightarrow>
                      (case follow_s h definitions (ref_path s) of
                         Inl e \<Rightarrow> Inl e
                       | Inr ref_value \<Rightarrow> resolve_s n h ref_value definitions)
                  | Some _ \<Rightarrow> Inl AttributeError))
          else
            (case mapM_s (\<lambda>h1 (k, v). case resolve_s n h1 v definitions of
                                        Inl e \<Rightarrow> Inl e
                                      | Inr (v', h2) \<Rightarrow> Inr ((k, v'), h2)) h kvs of
               Inl e \<Rightarrow> Inl e
             | Inr (kvs', h') \<Rightarrow> Inr (alloc h' (DictObj kvs')))
      | Some (ListObj xs) \<Rightarrow>
          (case mapM_s (\<lambda>h1 item. resolve_s n h1 item definitions) h xs of
             Inl e \<Rightarrow> Inl e
           | Inr (ys, h') \<Rightarrow> Inr (alloc h' (ListObj ys)))
      | Some scalar \<Rightarrow> Inr (schema, h))"

text \<open>
  The document that an address denotes, read to a depth: \<open>None\<close> when the depth does not
  suffice or an address is outside the store.
\<close>

fun those_list :: "'a option list \<Rightarrow> 'a list option" where
  "those_list [] = Some []"
| "those_list (x # xs) =
     (case x of None \<Rightarrow> None
      | Some y \<Rightarrow> (case those_list xs of None \<Rightarrow> None | Some ys \<Rightarrow> Some (y # ys)))"

fun value_at :: "nat \<Rightarrow> store \<Rightarrow> addr \<Rightarrow> json option" where
  "value_at 0 h a = None"
| "value_at (Suc n) h a =
     (case deref h a of
        None \<Rightarrow> None
      | Some NoneObj \<Rightarrow> Some JNull
      | Some (BoolObj b) \<Rightarrow> Some (JBool b)
      | Some (IntObj i) \<Rightarrow> Some (JInt i)
      | Some (FloatObj f) \<Rightarrow> Some (JFloat f)
      | Some (StrObj s) \<Rightarrow> Some (JStr s)
      | Some (ListObj xs) \<Rightarrow> map_option JList (those_list (map (value_at n h) xs))
      | Some (DictObj kvs) \<Rightarrow>
          map_option JDict
            (those_list (map (\<lambda>kv. map_option (Pair (fst kv)) (value_at n h (snd kv))) kvs)))"

text \<open>
  A tree of the store all of whose lists and dicts are at addresses from \<open>k\<close> on; the leaves
  are scalars, which are immutable and may be shared.
\<close>

fun fresh_tree :: "nat \<Rightarrow> nat \<Rightarrow> store \<Rightarrow> addr \<Rightarrow> bool" where
  "fresh_tree 0 k h a = False"
| "fresh_tree (Suc n) k h a =
     (case deref h a of
        None \<Rightarrow> False
      | Some (ListObj xs) \<Rightarrow> k \<le> a \<and> list_all (fresh_tree n k h) xs
      | Some (DictObj kvs) \<Rightarrow> k \<le> a \<and> list_all (\<lambda>kv. fresh_tree n k h (snd kv)) kvs
      | Some scalar \<Rightarrow> True)"

section \<open>Properties of documents and nodes\<close>



text \<open>Every document inside a document, itself included.\<close>

fun subdocs :: "json \<Rightarrow> json list" where
  "subdocs (JDict kvs) = JDict kvs # concat (map (\<lambda>kv. subdocs (snd kv)) kvs)"
| "subdocs (JList xs) = JList xs # concat (map subdocs xs)"
| "subdocs v = [v]"

text \<open>A mapping with a \<^verbatim>\<open>$ref\<close> pointer whose path does not lead through the table.\<close>

definition dangling_ref :: "json \<Rightarrow> json \<Rightarrow> bool" where
  "dangling_ref definitions doc =
     (case doc of
        JDict kvs \<Rightarrow>
          has_key kvs ''$ref'' \<and>
          (case dict_get kvs ''$ref'' of
             JStr s \<Rightarrow> isl (follow definitions (ref_path s))
           | _ \<Rightarrow> False)
      | _ \<Rightarrow> False)"

fun lookup_error :: "error \<Rightarrow> bool" where
  "lookup_error (KeyError k) = True"
| "lookup_error TypeError = True"
| "lookup_error _ = False"

text \<open>
  The documents that the traversal of the resolver comes to, within a number of steps: the
  document itself, the values of a mapping without \<^verbatim>\<open>$ref\<close>, the elements of a sequence,
  and what it comes to in the fragment a \<^verbatim>\<open>$ref\<close> leads to. The siblings of a
  \<^verbatim>\<open>$ref\<close> key are not among them.
\<close>

fun reaches :: "nat \<Rightarrow> json \<Rightarrow> json \<Rightarrow> json \<Rightarrow> bool" where
  "reaches 0 definitions doc sub = (doc = sub)"
| "reaches (Suc n) definitions doc sub =
     (doc = sub \<or>
      (case doc of
         JDict kvs \<Rightarrow>
           if has_key kvs ''$ref'' then
             (case dict_get kvs ''$ref'' of
                JStr s \<Rightarrow>
                  (case follow definitions (ref_path s) of
                     Inl e \<Rightarrow> False
                   | Inr ref_value \<Rightarrow> reaches n definitions ref_value sub)
              | _ \<Rightarrow> False)
           else list_ex (\<lambda>kv. reaches n definitions (snd kv) sub) kvs
       | JList xs \<Rightarrow> list_ex (\<lambda>item. reaches n definitions item sub) xs
       | _ \<Rightarrow> False))"

text \<open>
  The traversal comes to a document first: frames are left for the way, and what the
  traversal resolves before it on the way resolves without an error. In a mapping without
  \<^verbatim>\<open>$ref\<close> and in a sequence, the first element whose resolution fails is then the one
  through which the traversal comes to the document.
\<close>

fun reaches_first :: "nat \<Rightarrow> json \<Rightarrow> json \<Rightarrow> json \<Rightarrow> bool" where
  "reaches_first 0 definitions doc sub = False"
| "reaches_first (Suc n) definitions doc sub =
     (doc = sub \<or>
      (case doc of
         JDict kvs \<Rightarrow>
           if has_key kvs ''$ref'' then
             (case dict_get kvs ''$ref'' of
                JStr s \<Rightarrow>
                  (case follow definitions (ref_path s) of
                     Inl e \<Rightarrow> False
                   | Inr ref_value \<Rightarrow> reaches_first n definitions ref_value sub)
              | _ \<Rightarrow> False)
           else
             (case dropWhile (\<lambda>kv. \<not> isl (resolve n (snd kv) definitions)) kvs of
                [] \<Rightarrow> False
              | kv # rest \<Rightarrow> reaches_first n definitions (snd kv) sub)
       | JList xs \<Rightarrow>
           (case dropWhile (\<lambda>item. \<not> isl (resolve n item definitions)) xs of
              [] \<Rightarrow> False
            | item # rest \<Rightarrow> reaches_first n definitions item sub)
       | _ \<Rightarrow> False))"

text \<open>
  The nodes that the codec is made for: the kind is there, a node has the fields of its
  kind only (\<open>items\<close> on an array, \<open>properties\<close> on an object and there always, the bounds
  where the encoder writes them), no enumeration, no additional properties, no
  \<open>minimum\<close>, a default that \<open>literal_eval\<close> reads back from its \<^verbatim>\<open>repr\<close>, property
  names that are distinct and are not \<^verbatim>\<open>$ref\<close>, and an \<open>items\<close> child that is not
  marked required.
\<close>

primrec codec_node :: "(string \<Rightarrow> error + json) \<Rightarrow> node \<Rightarrow> bool" where
  "codec_node literal_eval (Node descr tp enm req dflt itms props addl minm maxm minI maxI) =
     (tp \<noteq> None \<and> enm = None \<and> addl = None \<and> minm = None \<and>
      literal_eval (py_repr dflt) = Inr dflt \<and>
      (case map_option (codec_node literal_eval) itms of Some ok \<Rightarrow> ok | None \<Rightarrow> True) \<and>
      (case map_option (map (map_prod id (codec_node literal_eval))) props of
         Some oks \<Rightarrow> list_all snd oks
       | None \<Rightarrow> True) \<and>
      (case itms of Some i \<Rightarrow> \<not> required i | None \<Rightarrow> True) \<and>
      (if tp = Some ARRAY then props = None \<and> maxm = None
       else if tp = Some OBJECT then
         itms = None \<and> props \<noteq> None \<and> distinct (map fst (the props)) \<and>
         ''$ref'' \<notin> set (map fst (the props)) \<and>
         maxm = None \<and> minI = None \<and> maxI = None
       else itms = None \<and> props = None \<and> minI = None \<and> maxI = None))"

section \<open>Sequencing and comprehensions\<close>

lemma and_then_simps [simp]:
  "and_then (Inl e) f = Inl e"
  "and_then (Inr x) f = f x"
  by (simp_all add: and_then_def)

lemma and_then_Inr_iff:
  "and_then m f = Inr y \<longleftrightarrow> (\<exists>x. m = Inr x \<and> f x = Inr y)"
  by (cases m) simp_all

lemma mapM_Cons_Inr:
  "mapM f (x # xs) = Inr ys \<longleftrightarrow> (\<exists>y ys'. ys = y # ys' \<and> f x = Inr y \<and> mapM f xs = Inr ys')"
  by (auto split: sum.splits)

lemma mapM_Inr_iff:
  "mapM f xs = Inr ys \<longleftrightarrow> list_all2 (\<lambda>x y. f x = Inr y) xs ys"
proof (induction xs arbitrary: ys)
  case Nil
  then show ?case by auto
next
  case (Cons x xs)
  show ?case
    unfolding mapM_Cons_Inr list_all2_Cons1 Cons.IH by blast
qed

lemma mapM_isl_iff: "isl (mapM f xs) \<longleftrightarrow> (\<exists>x \<in> set xs. isl (f x))"
  by (induction xs) (auto split: sum.splits)

lemma list_all2_right_witness:
  "list_all2 P xs ys \<Longrightarrow> y \<in> set ys \<Longrightarrow> \<exists>x \<in> set xs. P x y"
  by (induction rule: list_all2_induct) auto

lemma list_all2_fst_keys:
  "list_all2 (\<lambda>kv kv'. fst kv' = fst kv \<and> Q kv kv') kvs kvs' \<Longrightarrow> map fst kvs' = map fst kvs"
  by (induction rule: list_all2_induct) auto

lemma mapM_first_Inl:
  assumes "dropWhile (\<lambda>x. \<not> isl (g x)) xs = x # zs"
    and "\<And>y. isl (f y) = isl (g y)"
    and "f x = Inl e"
  shows "mapM f xs = Inl e"
  using assms(1)
proof (induction xs)
  case Nil
  then show ?case by simp
next
  case (Cons a xs)
  show ?case
  proof (cases "isl (g a)")
    case True
    with Cons.prems have "a = x" by simp
    with assms(3) show ?thesis by simp
  next
    case False
    with Cons.prems have "dropWhile (\<lambda>x. \<not> isl (g x)) xs = x # zs" by simp
    then have "mapM f xs = Inl e" by (rule Cons.IH)
    moreover from False assms(2)[of a] obtain y where "f a = Inr y"
      by (cases "f a") auto
    ultimately show ?thesis by simp
  qed
qed

lemma mapM_Inl:
  "mapM f xs = Inl e \<Longrightarrow> \<exists>x \<in> set xs. f x = Inl e"
  by (induction xs) (auto split: sum.splits)

section \<open>The resolver\<close>

lemma follow_error_kind: "follow v ks = Inl e \<Longrightarrow> lookup_error e"
proof (induction ks arbitrary: v)
  case Nil
  then show ?case by simp
next
  case (Cons k ks)
  then show ?case
    by (cases v) (auto split: sum.splits option.splits)
qed



lemma resolve_dict_ref:
  assumes "has_key kvs ''$ref''" "dict_get kvs ''$ref'' = JStr s"
  shows "resolve (Suc n) (JDict kvs) d =
     (case follow d (ref_path s) of Inl e \<Rightarrow> Inl e | Inr fragment \<Rightarrow> resolve n fragment d)"
  using assms by simp










text \<open>
  C5, as stated. First, the document contains a mapping with a \<^verbatim>\<open>$ref\<close> pointer whose
  path is not in the table, under a sibling key of another \<^verbatim>\<open>$ref\<close>, and the
  resolution returns a result. Second, the sequence holds such a mapping after a mapping
  whose \<^verbatim>\<open>$ref\<close> is not a string, and the resolution raises the \<^verbatim>\<open>AttributeError\<close> of
  the latter, which is not a lookup error.
\<close>

theorem resolve_unreached_ref_counterexample:
  "list_ex (dangling_ref (JDict [(''A'', JDict [(''type'', JStr ''string'')])]))
     (subdocs (JDict [(''$ref'', JStr ''#/definitions/A''),
                      (''x'', JDict [(''$ref'', JStr ''#/definitions/Missing'')])])) \<and>
   resolve 3 (JDict [(''$ref'', JStr ''#/definitions/A''),
                     (''x'', JDict [(''$ref'', JStr ''#/definitions/Missing'')])])
     (JDict [(''A'', JDict [(''type'', JStr ''string'')])])
   = Inr (JDict [(''type'', JStr ''string'')]) \<and>
   list_ex (dangling_ref (JDict []))
     (subdocs (JList [JDict [(''$ref'', JInt 5)],
                      JDict [(''$ref'', JStr ''#/definitions/Missing'')]])) \<and>
   resolve 3 (JList [JDict [(''$ref'', JInt 5)],
                     JDict [(''$ref'', JStr ''#/definitions/Missing'')]]) (JDict [])
   = Inl AttributeError \<and>
   \<not> lookup_error AttributeError"
  by (simp add: dangling_ref_def has_key_def dict_get_def ref_path_def eval_nat_numeral)

lemma dangling_ref_fails:
  assumes "dangling_ref d sub"
  shows "\<exists>e. resolve (Suc n) sub d = Inl e \<and> lookup_error e"
proof -
  from assms obtain kvs s where sub: "sub = JDict kvs" and k: "has_key kvs ''$ref''"
    and g: "dict_get kvs ''$ref'' = JStr s" and f: "isl (follow d (ref_path s))"
    by (auto simp: dangling_ref_def split: json.splits)
  from f obtain e where e: "follow d (ref_path s) = Inl e"
    by (cases "follow d (ref_path s)") auto
  have "resolve (Suc n) sub d = Inl e"
    unfolding sub resolve_dict_ref[OF k g] e by simp
  with follow_error_kind[OF e] show ?thesis by blast
qed

lemma reaches_dangling_fails:
  "reaches m d doc sub \<Longrightarrow> dangling_ref d sub \<Longrightarrow> isl (resolve n doc d)"
proof (induction m arbitrary: doc n)
  case 0
  then have eq: "doc = sub" by simp
  show ?case
  proof (cases n)
    case 0
    then show ?thesis by simp
  next
    case (Suc n')
    from dangling_ref_fails[OF "0.prems"(2), of n'] obtain e
      where "resolve (Suc n') sub d = Inl e" by blast
    with eq Suc show ?thesis by simp
  qed
next
  case (Suc m)
  show ?case
  proof (cases n)
    case 0
    then show ?thesis by simp
  next
    case (Suc n')
    show ?thesis
    proof (cases "doc = sub")
      case True
      from dangling_ref_fails[OF Suc.prems(2), of n'] obtain e
        where "resolve (Suc n') sub d = Inl e" by blast
      with True \<open>n = Suc n'\<close> show ?thesis by simp
    next
      case False
      show ?thesis
      proof (cases doc)
        case (JDict kvs)
        show ?thesis
        proof (cases "has_key kvs ''$ref''")
          case True
          with Suc.prems(1) False JDict obtain s fragment where
            g: "dict_get kvs ''$ref'' = JStr s" and f: "follow d (ref_path s) = Inr fragment"
            and r: "reaches m d fragment sub"
            by (auto split: json.splits sum.splits)
          from Suc.IH[OF r Suc.prems(2)] have "isl (resolve n' fragment d)" .
          then show ?thesis
            unfolding \<open>n = Suc n'\<close> JDict resolve_dict_ref[OF True g] f by simp
        next
          case nr: False
          with Suc.prems(1) False JDict obtain kv where kv: "kv \<in> set kvs"
            and r: "reaches m d (snd kv) sub"
            by (auto simp: list_ex_iff)
          from Suc.IH[OF r Suc.prems(2)] have "isl (resolve n' (snd kv) d)" .
          then have "isl ((\<lambda>(k, v). case resolve n' v d of Inl e \<Rightarrow> Inl e | Inr v' \<Rightarrow> Inr (k, v')) kv)"
            by (cases kv) (auto split: sum.splits)
          with kv have "isl (mapM (\<lambda>(k, v). case resolve n' v d of Inl e \<Rightarrow> Inl e | Inr v' \<Rightarrow> Inr (k, v')) kvs)"
            unfolding mapM_isl_iff by blast
          with nr show ?thesis
            unfolding \<open>n = Suc n'\<close> JDict by (auto split: sum.splits)
        qed
      next
        case (JList xs)
        with Suc.prems(1) False obtain x where x: "x \<in> set xs" and r: "reaches m d x sub"
          by (auto simp: list_ex_iff)
        from Suc.IH[OF r Suc.prems(2)] have "isl (resolve n' x d)" .
        with x have "isl (mapM (\<lambda>item. resolve n' item d) xs)"
          unfolding mapM_isl_iff by blast
        then show ?thesis
          unfolding \<open>n = Suc n'\<close> JList by (auto split: sum.splits)
      qed (use Suc.prems(1) False in auto)
    qed
  qed
qed

lemma follow_error:
  "follow v ks = Inl e \<Longrightarrow> e = TypeError \<or> (\<exists>k \<in> set ks. e = KeyError k)"
proof (induction ks arbitrary: v)
  case Nil
  then show ?case by simp
next
  case (Cons k ks)
  then show ?case
    by (cases v) (auto split: sum.splits option.splits)
qed

lemma resolve_error_kinds:
  "resolve n doc d = Inl e \<Longrightarrow> lookup_error e \<or> e = AttributeError \<or> e = RecursionError"
proof (induction n arbitrary: doc e)
  case 0
  then show ?case by simp
next
  case (Suc n)
  show ?case
  proof (cases doc)
    case (JDict kvs)
    show ?thesis
    proof (cases "has_key kvs ''$ref''")
      case True
      show ?thesis
      proof (cases "dict_get kvs ''$ref''")
        case (JStr s)
        show ?thesis
        proof (cases "follow d (ref_path s)")
          case (Inl e')
          with Suc.prems JDict True JStr have "e = e'" by simp
          with follow_error_kind[OF Inl] show ?thesis by simp
        next
          case (Inr fragment)
          with Suc.prems JDict True JStr have "resolve n fragment d = Inl e" by simp
          then show ?thesis by (rule Suc.IH)
        qed
      qed (use Suc.prems JDict True in auto)
    next
      case False
      with Suc.prems JDict have
        "mapM (\<lambda>(k, v). case resolve n v d of Inl e \<Rightarrow> Inl e | Inr v' \<Rightarrow> Inr (k, v')) kvs = Inl e"
        by (auto split: sum.splits)
      from mapM_Inl[OF this] obtain k v where "resolve n v d = Inl e"
        by (auto split: sum.splits)
      then show ?thesis by (rule Suc.IH)
    qed
  next
    case (JList xs)
    with Suc.prems have "mapM (\<lambda>item. resolve n item d) xs = Inl e"
      by (auto split: sum.splits)
    from mapM_Inl[OF this] obtain x where "resolve n x d = Inl e"
      by auto
    then show ?thesis by (rule Suc.IH)
  qed (use Suc.prems in auto)
qed

lemma dangling_ref_error:
  assumes "dangling_ref d sub"
  obtains kvs s e where "sub = JDict kvs" "has_key kvs ''$ref''" "dict_get kvs ''$ref'' = JStr s"
    "follow d (ref_path s) = Inl e"
proof -
  from assms obtain kvs s where sub: "sub = JDict kvs" and k: "has_key kvs ''$ref''"
    and g: "dict_get kvs ''$ref'' = JStr s" and f: "isl (follow d (ref_path s))"
    by (auto simp: dangling_ref_def split: json.splits)
  from f obtain e where e: "follow d (ref_path s) = Inl e"
    by (cases "follow d (ref_path s)") auto
  from sub k g e show ?thesis by (rule that)
qed

lemma reaches_first_error:
  assumes "sub = JDict skvs" "has_key skvs ''$ref''" "dict_get skvs ''$ref'' = JStr s"
    "follow d (ref_path s) = Inl e"
  shows "reaches_first n d doc sub \<Longrightarrow> resolve n doc d = Inl e"
proof (induction n arbitrary: doc)
  case 0
  then show ?case by simp
next
  case (Suc n)
  show ?case
  proof (cases "doc = sub")
    case True
    show ?thesis
      unfolding True assms(1) resolve_dict_ref[OF assms(2,3)] assms(4) by simp
  next
    case False
    show ?thesis
    proof (cases doc)
      case (JDict kvs)
      show ?thesis
      proof (cases "has_key kvs ''$ref''")
        case True
        with Suc.prems False JDict obtain s' fragment where
          g: "dict_get kvs ''$ref'' = JStr s'" and f: "follow d (ref_path s') = Inr fragment"
          and r: "reaches_first n d fragment sub"
          by (auto split: json.splits sum.splits)
        from Suc.IH[OF r] show ?thesis
          unfolding JDict resolve_dict_ref[OF True g] f by simp
      next
        case nr: False
        with Suc.prems False JDict obtain kv rest where
          dw: "dropWhile (\<lambda>kv. \<not> isl (resolve n (snd kv) d)) kvs = kv # rest"
          and r: "reaches_first n d (snd kv) sub"
          by (auto split: list.splits)
        from Suc.IH[OF r] have e: "resolve n (snd kv) d = Inl e" .
        have "mapM (\<lambda>(k, v). case resolve n v d of Inl e \<Rightarrow> Inl e | Inr v' \<Rightarrow> Inr (k, v')) kvs = Inl e"
        proof (rule mapM_first_Inl[OF dw])
          show "isl (case y of (k, v) \<Rightarrow> case resolve n v d of Inl e \<Rightarrow> Inl e | Inr v' \<Rightarrow> Inr (k, v'))
                = isl (resolve n (snd y) d)" for y
            by (cases y) (auto split: sum.splits)
          show "(case kv of (k, v) \<Rightarrow> case resolve n v d of Inl e \<Rightarrow> Inl e | Inr v' \<Rightarrow> Inr (k, v')) = Inl e"
            using e by (cases kv) auto
        qed
        with nr show ?thesis
          unfolding JDict by simp
      qed
    next
      case (JList xs)
      with Suc.prems False obtain item rest where
        dw: "dropWhile (\<lambda>item. \<not> isl (resolve n item d)) xs = item # rest"
        and r: "reaches_first n d item sub"
        by (auto split: list.splits)
      from Suc.IH[OF r] have e: "resolve n item d = Inl e" .
      have "mapM (\<lambda>item. resolve n item d) xs = Inl e"
        by (rule mapM_first_Inl[where g = "\<lambda>item. resolve n item d"
              and f = "\<lambda>item. resolve n item d", OF dw _ e]) simp
      then show ?thesis
        unfolding JList by simp
    qed (use Suc.prems False in auto)
  qed
qed

text \<open>
  C5, amended. Let a mapping have a \<^verbatim>\<open>$ref\<close> pointer whose path is not in the table.
  When the traversal comes to it first, the resolution of the document raises the error
  of the failed step of the path: the \<^verbatim>\<open>KeyError\<close> of a key of the path, or
  \<^verbatim>\<open>TypeError\<close>. When the traversal comes to it at all, the resolution of the document
  returns no result, with any number of frames: it raises a lookup error, the
  \<^verbatim>\<open>AttributeError\<close> of a \<^verbatim>\<open>$ref\<close> that is not a string, or \<^verbatim>\<open>RecursionError\<close>. The
  resolution of the mapping itself raises the lookup error.
\<close>

theorem resolve_dangling_ref:
  assumes "dangling_ref d sub"
  shows "(reaches_first n d doc sub \<longrightarrow>
           (\<exists>kvs s e. sub = JDict kvs \<and> dict_get kvs ''$ref'' = JStr s \<and>
              follow d (ref_path s) = Inl e \<and>
              (e = TypeError \<or> (\<exists>k \<in> set (ref_path s). e = KeyError k)) \<and>
              resolve n doc d = Inl e)) \<and>
         (reaches m d doc sub \<longrightarrow>
           (\<exists>e. resolve n doc d = Inl e \<and>
              (lookup_error e \<or> e = AttributeError \<or> e = RecursionError))) \<and>
         (\<exists>e. resolve (Suc n) sub d = Inl e \<and> lookup_error e)"
proof (intro conjI impI)
  assume r: "reaches_first n d doc sub"
  from assms obtain kvs s e where sub: "sub = JDict kvs" "has_key kvs ''$ref''"
    "dict_get kvs ''$ref'' = JStr s" "follow d (ref_path s) = Inl e"
    by (rule dangling_ref_error)
  from reaches_first_error[OF sub r] follow_error[OF sub(4)] sub
  show "\<exists>kvs s e. sub = JDict kvs \<and> dict_get kvs ''$ref'' = JStr s \<and>
              follow d (ref_path s) = Inl e \<and>
              (e = TypeError \<or> (\<exists>k \<in> set (ref_path s). e = KeyError k)) \<and>
              resolve n doc d = Inl e"
    by blast
next
  assume "reaches m d doc sub"
  from reaches_dangling_fails[OF this assms, of n] obtain e where e: "resolve n doc d = Inl e"
    by (cases "resolve n doc d") auto
  from resolve_error_kinds[OF e] e
  show "\<exists>e. resolve n doc d = Inl e \<and>
              (lookup_error e \<or> e = AttributeError \<or> e = RecursionError)"
    by blast
next
  show "\<exists>e. resolve (Suc n) sub d = Inl e \<and> lookup_error e"
    using assms by (rule dangling_ref_fails)
qed

theorem resolve_dangling_ref_witness:
  "dangling_ref (JDict []) (JDict [(''$ref'', JStr ''#/definitions/Missing'')]) \<and>
   reaches_first 4 (JDict [])
     (JDict [(''properties'', JList [JDict [(''type'', JStr ''string'')],
                                     JDict [(''$ref'', JStr ''#/definitions/Missing'')],
                                     JDict [(''$ref'', JInt 5)]])])
     (JDict [(''$ref'', JStr ''#/definitions/Missing'')]) \<and>
   resolve 4
     (JDict [(''properties'', JList [JDict [(''type'', JStr ''string'')],
                                     JDict [(''$ref'', JStr ''#/definitions/Missing'')],
                                     JDict [(''$ref'', JInt 5)]])])
     (JDict []) = Inl (KeyError ''Missing'') \<and>
   resolve (Suc 0) (JDict [(''$ref'', JStr ''#/definitions/Missing'')]) (JDict [])
     = Inl (KeyError ''Missing'')"
proof -
  let ?sub = "JDict [(''$ref'', JStr ''#/definitions/Missing'')]"
  let ?doc = "JDict [(''properties'', JList [JDict [(''type'', JStr ''string'')], ?sub,
                                     JDict [(''$ref'', JInt 5)]])]"
  have g: "dangling_ref (JDict []) ?sub"
    by (simp add: dangling_ref_def has_key_def dict_get_def ref_path_def)
  have r: "reaches_first 4 (JDict []) ?doc ?sub"
    by (simp add: eval_nat_numeral has_key_def dict_get_def ref_path_def)
  have f: "follow (JDict []) (ref_path ''#/definitions/Missing'') = Inl (KeyError ''Missing'')"
    by (simp add: ref_path_def)
  from resolve_dangling_ref[OF g, of 4 ?doc] r f
  have 1: "resolve 4 ?doc (JDict []) = Inl (KeyError ''Missing'')"
    by (auto simp: dict_get_def)
  from resolve_dangling_ref[OF g, of 0] f
  have 2: "resolve (Suc 0) ?sub (JDict []) = Inl (KeyError ''Missing'')"
    by (simp add: has_key_def dict_get_def)
  from g r 1 2 show ?thesis by blast
qed

section \<open>Encoding of absent fields\<close>

text \<open>
  C2. The node with every field absent is encoded with the key \<^verbatim>\<open>default\<close>, bound to
  the text \<^verbatim>\<open>None\<close>: the encoder writes \<^verbatim>\<open>repr(self.default)\<close>, which is a string
  for every value, so the filter that drops \<^verbatim>\<open>None\<close> values keeps it. Neither
  \<^verbatim>\<open>type\<close> nor \<^verbatim>\<open>description\<close> is written.
\<close>

theorem to_dict_absent_default:
  "to_dict JSONSchema = [(''default'', JStr ''None'')]"
  by (simp add: JSONSchema_def opt_json_def)

section \<open>Projections\<close>

text \<open>
  C3. A node of kind string with the enumeration \<^verbatim>\<open>['a', 'b']\<close> projects to the plain
  primitives \<^verbatim>\<open>str\<close> and \<^verbatim>\<open>string\<close>: both projections test the scalar kinds before
  they test the enumeration.
\<close>

theorem enum_projection_shadowed:
  "python_type (Node None (Some STRING) (Some [JStr ''a'', JStr ''b'']) False JNull
      None None None None None None None) = Inr ''str'' \<and>
   typescript_type (Node None (Some STRING) (Some [JStr ''a'', JStr ''b'']) False JNull
      None None None None None None None) = Inr ''string''"
  by simp

text \<open>
  C9. The value-language projection of an object node raises \<^verbatim>\<open>NotImplementedError\<close>
  when the node has a non-empty properties mapping, and is \<^verbatim>\<open>dict\<close> when the mapping is
  absent or empty.
\<close>

theorem python_type_object:
  assumes "type n = Some OBJECT"
  shows "python_type n =
     (if properties n = None \<or> properties n = Some [] then Inr ''dict''
      else Inl NotImplementedError)"
  using assms by (cases n) simp

theorem python_type_object_witness:
  "python_type (Node None (Some OBJECT) None False JNull None
      (Some [(''name'', Node None (Some STRING) None True JNull None None None None None None None)])
      None None None None None) = Inl NotImplementedError \<and>
   python_type (Node None (Some OBJECT) None False JNull None None None None None None None)
     = Inr ''dict''"
  using python_type_object[of "Node None (Some OBJECT) None False JNull None
      (Some [(''name'', Node None (Some STRING) None True JNull None None None None None None None)])
      None None None None None"]
    python_type_object[of "Node None (Some OBJECT) None False JNull None None None None None None None"]
  by simp

section \<open>Inference\<close>

text \<open>
  C8. On the bare class \<^verbatim>\<open>list\<close> the inference raises \<^verbatim>\<open>IndexError\<close>:
  \<^verbatim>\<open>typing.get_args(list)\<close> is the empty tuple and the source takes its element 0 before
  it tests it. On the alias \<^verbatim>\<open>list[str]\<close> it raises \<^verbatim>\<open>TypeError\<close>, from the subclass
  test that comes before the list branch.
\<close>

theorem from_python_type_list:
  "from_python_type literal_eval (Suc n) PyList = Inl IndexError \<and>
   from_python_type literal_eval (Suc n) (Alias ListOrigin [PyStr]) = Inl TypeError"
  by simp

section \<open>Decoding\<close>

lemma validate_absent [simp]:
  "validate_str JNull = Inr None"
  "validate_int JNull = Inr None"
  "validate_number JNull = Inr None"
  by (simp_all add: validate_str_def validate_int_def validate_number_def optional_def)

lemma validate_declared [simp]:
  "validate_str (JStr s) = Inr (Some s)"
  "validate_int (JInt i) = Inr (Some i)"
  "validate_number (JInt i) = Inr (Some (IntNumber i))"
  by (simp_all add: validate_str_def validate_int_def validate_number_def optional_def
      number_validator_def)



text \<open>What a successful decoding says about the document and the node.\<close>

lemma from_dict_Inr:
  assumes "from_dict le fuel doc = Inr node"
  obtains n kvs0 kvs where
    "fuel = Suc n" "doc = JDict kvs0"
    "resolve n doc (definitions_of kvs0) = Inr (JDict kvs)"
    "has_key kvs ''type''"
    "validate_type (dict_get kvs ''type'') = Inr (type node)"
    "\<not> required node"
    "if truthy (dict_get kvs ''items'')
     then \<exists>c. from_dict le n (dict_get kvs ''items'') = Inr c \<and> items node = Some c
     else items node = None"
    "if dict_get kvs ''type'' = JStr ''object''
     then \<exists>ps. parse_properties le n kvs = Inr ps \<and> properties node = Some ps
     else properties node = None"
    "if dict_get kvs ''type'' = JStr ''object'' \<and> truthy (dict_get kvs ''additionalProperties'')
     then \<exists>c. from_dict le n (dict_get kvs ''additionalProperties'') = Inr c \<and>
              additional_properties node = Some c
     else additional_properties node = None"
proof -
  from assms obtain n where fuel: "fuel = Suc n"
    by (cases fuel) auto
  from assms fuel obtain kvs0 where doc: "doc = JDict kvs0"
    by (cases doc) auto
  from assms fuel doc obtain resolved where
    res: "resolve n (JDict kvs0) (definitions_of kvs0) = Inr resolved"
    by (cases "resolve n (JDict kvs0) (definitions_of kvs0)") auto
  from assms fuel doc res obtain kvs where kvs: "resolved = JDict kvs"
    by (cases resolved) auto
  from assms fuel doc res kvs have ty: "has_key kvs ''type''"
    by (auto split: if_splits)
  from assms have body:
    "and_then
       (let d = dict_get kvs ''default'' in
        if truthy d then (case d of JStr s \<Rightarrow> le s | _ \<Rightarrow> Inl ValueError)
        else Inr JNull) (\<lambda>dflt.
     and_then
       (let i = dict_get kvs ''items'' in
        if truthy i then and_then (from_dict le n i) (\<lambda>c. Inr (Some c))
        else Inr None) (\<lambda>itms.
     and_then
       (if dict_get kvs ''type'' = JStr ''object''
        then and_then (parse_properties le n kvs) (\<lambda>ps. Inr (Some ps))
        else Inr None) (\<lambda>props.
     and_then
       (let ap = dict_get kvs ''additionalProperties'' in
        if dict_get kvs ''type'' = JStr ''object'' \<and> truthy ap
        then and_then (from_dict le n ap) (\<lambda>c. Inr (Some c))
        else Inr None) (\<lambda>addl.
     and_then (validate_str (dict_get kvs ''description'')) (\<lambda>descr.
     and_then (validate_type (dict_get kvs ''type'')) (\<lambda>tp.
     and_then (validate_list (dict_get kvs ''enum'')) (\<lambda>enm.
     and_then (validate_number (dict_get kvs ''minimum'')) (\<lambda>minm.
     and_then (validate_number (dict_get kvs ''maximum'')) (\<lambda>maxm.
     and_then (validate_int (dict_get kvs ''minItems'')) (\<lambda>minI.
     and_then (validate_int (dict_get kvs ''maxItems'')) (\<lambda>maxI.
       Inr (Node descr tp enm False dflt itms props addl minm maxm minI maxI))))))))))))
     = Inr node"
    unfolding fuel doc using res kvs ty by simp
  then obtain dflt itms props addl descr tp enm minm maxm minI maxI where
    i: "(let i = dict_get kvs ''items'' in
        if truthy i then and_then (from_dict le n i) (\<lambda>c. Inr (Some c))
        else Inr None) = Inr itms"
    and p: "(if dict_get kvs ''type'' = JStr ''object''
        then and_then (parse_properties le n kvs) (\<lambda>ps. Inr (Some ps))
        else Inr None) = Inr props"
    and a: "(let ap = dict_get kvs ''additionalProperties'' in
        if dict_get kvs ''type'' = JStr ''object'' \<and> truthy ap
        then and_then (from_dict le n ap) (\<lambda>c. Inr (Some c))
        else Inr None) = Inr addl"
    and t: "validate_type (dict_get kvs ''type'') = Inr tp"
    and node: "node = Node descr tp enm False dflt itms props addl minm maxm minI maxI"
    unfolding and_then_Inr_iff by blast
  show ?thesis
  proof (rule that[OF fuel doc _ ty])
    show "resolve n doc (definitions_of kvs0) = Inr (JDict kvs)"
      using res kvs doc by simp
    show "validate_type (dict_get kvs ''type'') = Inr (type node)"
      using t node by simp
    show "\<not> required node" using node by simp
    show "if truthy (dict_get kvs ''items'')
     then \<exists>c. from_dict le n (dict_get kvs ''items'') = Inr c \<and> items node = Some c
     else items node = None"
      using i node by (auto simp: and_then_Inr_iff Let_def split: if_splits)
    show "if dict_get kvs ''type'' = JStr ''object''
     then \<exists>ps. parse_properties le n kvs = Inr ps \<and> properties node = Some ps
     else properties node = None"
      using p node by (auto simp: and_then_Inr_iff split: if_splits)
    show "if dict_get kvs ''type'' = JStr ''object'' \<and> truthy (dict_get kvs ''additionalProperties'')
     then \<exists>c. from_dict le n (dict_get kvs ''additionalProperties'') = Inr c \<and>
              additional_properties node = Some c
     else additional_properties node = None"
      using a node by (auto simp: and_then_Inr_iff Let_def split: if_splits)
  qed
qed




section \<open>Required properties\<close>

lemma entry_decode_Inr:
  "(case kv of (k, v) \<Rightarrow> and_then (from_dict le n v) (\<lambda>c. Inr (k, c))) = Inr kp
   \<longleftrightarrow> fst kp = fst kv \<and> from_dict le n (snd kv) = Inr (snd kp)"
  by (cases kv; cases kp) (auto simp: and_then_Inr_iff)

lemma entry_required_Inr:
  "(case kp of (k, v) \<Rightarrow> and_then (py_in k req) (\<lambda>b. Inr (k, set_required b v))) = Inr kp'
   \<longleftrightarrow> fst kp' = fst kp \<and> (\<exists>b. py_in (fst kp) req = Inr b \<and> snd kp' = set_required b (snd kp))"
  by (cases kp; cases kp') (auto simp: and_then_Inr_iff)

lemma required_set_required [simp]: "required (set_required b c) = b"
  by (simp add: set_required_def)

lemma parse_properties_Inr:
  assumes "parse_properties le fuel kvs = Inr ps"
  obtains n decoded where
    "fuel = Suc n"
    "if has_key kvs ''properties''
     then \<exists>pd. dict_get kvs ''properties'' = JDict pd \<and>
            list_all2 (\<lambda>kv kp. fst kp = fst kv \<and> from_dict le n (snd kv) = Inr (snd kp)) pd decoded
     else decoded = []"
    "if has_key kvs ''required''
     then list_all2 (\<lambda>kp kp'. fst kp' = fst kp \<and>
            (\<exists>b. py_in (fst kp) (dict_get kvs ''required'') = Inr b \<and>
                 snd kp' = set_required b (snd kp))) decoded ps
     else ps = decoded"
proof -
  from assms obtain n where fuel: "fuel = Suc n"
    by (cases fuel) auto
  from assms[unfolded fuel] obtain decoded where
    d: "(if has_key kvs ''properties'' then
          (case dict_get kvs ''properties'' of
             JDict ps \<Rightarrow>
               mapM (\<lambda>(k, v). and_then (from_dict le n v) (\<lambda>c. Inr (k, c))) ps
           | _ \<Rightarrow> Inl AttributeError)
        else Inr []) = Inr decoded"
    and r: "(if has_key kvs ''required'' then
       mapM (\<lambda>(k, v). and_then (py_in k (dict_get kvs ''required''))
                          (\<lambda>b. Inr (k, set_required b v))) decoded
     else Inr decoded) = Inr ps"
    unfolding parse_properties.simps and_then_Inr_iff by blast
  show ?thesis
  proof (rule that[OF fuel])
    show "if has_key kvs ''properties''
     then \<exists>pd. dict_get kvs ''properties'' = JDict pd \<and>
            list_all2 (\<lambda>kv kp. fst kp = fst kv \<and> from_dict le n (snd kv) = Inr (snd kp)) pd decoded
     else decoded = []"
      using d by (auto simp: mapM_Inr_iff entry_decode_Inr split: if_splits json.splits)
    show "if has_key kvs ''required''
     then list_all2 (\<lambda>kp kp'. fst kp' = fst kp \<and>
            (\<exists>b. py_in (fst kp) (dict_get kvs ''required'') = Inr b \<and>
                 snd kp' = set_required b (snd kp))) decoded ps
     else ps = decoded"
      using r by (auto simp: mapM_Inr_iff entry_required_Inr split: if_splits)
  qed
qed

text \<open>
  C7. When an object document is decoded, the node has a property for every key of the
  \<^verbatim>\<open>properties\<close> of the resolved document, in the same order. When the resolved document
  has no \<^verbatim>\<open>required\<close> key, no property is marked required; when its \<^verbatim>\<open>required\<close>
  is a list, a property is marked required exactly when its key is an element of the list.
\<close>

theorem parse_properties_required:
  assumes "from_dict literal_eval fuel (JDict kvs0) = Inr node"
    and "resolve (fuel - 1) (JDict kvs0) (definitions_of kvs0) = Inr (JDict kvs)"
    and "dict_get kvs ''type'' = JStr ''object''"
  shows "\<exists>ps. properties node = Some ps \<and>
     (has_key kvs ''properties'' \<longrightarrow>
        (\<exists>pd. dict_get kvs ''properties'' = JDict pd \<and> map fst ps = map fst pd)) \<and>
     (\<not> has_key kvs ''required'' \<longrightarrow> (\<forall>kp \<in> set ps. \<not> required (snd kp))) \<and>
     (\<forall>xs. dict_get kvs ''required'' = JList xs \<longrightarrow>
        (\<forall>kp \<in> set ps. required (snd kp) = (JStr (fst kp) \<in> set xs)))"
proof (rule from_dict_Inr[OF assms(1)])
  fix n ks0 ks
  assume fuel: "fuel = Suc n" and doc: "JDict kvs0 = JDict ks0"
    and res: "resolve n (JDict kvs0) (definitions_of ks0) = Inr (JDict ks)"
    and props: "if dict_get ks ''type'' = JStr ''object''
       then \<exists>ps. parse_properties literal_eval n ks = Inr ps \<and> properties node = Some ps
       else properties node = None"
  from doc res assms(2) fuel have ks: "ks = kvs" by simp
  from props ks assms(3) obtain ps where
    pp: "parse_properties literal_eval n kvs = Inr ps" and pn: "properties node = Some ps"
    by auto
  show ?thesis
  proof (rule parse_properties_Inr[OF pp])
    fix m decoded
    assume dec: "if has_key kvs ''properties''
       then \<exists>pd. dict_get kvs ''properties'' = JDict pd \<and>
            list_all2 (\<lambda>kv kp. fst kp = fst kv \<and> from_dict literal_eval m (snd kv) = Inr (snd kp)) pd decoded
       else decoded = []"
      and req: "if has_key kvs ''required''
       then list_all2 (\<lambda>kp kp'. fst kp' = fst kp \<and>
            (\<exists>b. py_in (fst kp) (dict_get kvs ''required'') = Inr b \<and>
                 snd kp' = set_required b (snd kp))) decoded ps
       else ps = decoded"
    have keys: "map fst ps = map fst decoded"
      using req by (auto split: if_splits dest: list_all2_fst_keys)
    have a: "has_key kvs ''properties'' \<longrightarrow>
        (\<exists>pd. dict_get kvs ''properties'' = JDict pd \<and> map fst ps = map fst pd)"
      using dec keys by (auto split: if_splits dest: list_all2_fst_keys)
    have b: "\<not> required (snd kp)" if "\<not> has_key kvs ''required''" "kp \<in> set ps" for kp
    proof -
      from that req have "kp \<in> set decoded" by simp
      with dec obtain pd kv where "has_key kvs ''properties''"
        "from_dict literal_eval m (snd kv) = Inr (snd kp)"
        by (auto split: if_splits dest: list_all2_right_witness)
      then show ?thesis
        by (auto elim: from_dict_Inr)
    qed
    have c: "required (snd kp) = (JStr (fst kp) \<in> set xs)"
      if "dict_get kvs ''required'' = JList xs" "kp \<in> set ps" for kp xs
    proof -
      from that(1) have "has_key kvs ''required''"
        by (auto simp: dict_get_def has_key_def split: option.splits dest: map_of_SomeD intro: rev_image_eqI)
      with req have "list_all2 (\<lambda>kp kp'. fst kp' = fst kp \<and>
            (\<exists>b. py_in (fst kp) (dict_get kvs ''required'') = Inr b \<and>
                 snd kp' = set_required b (snd kp))) decoded ps"
        by simp
      from list_all2_right_witness[OF this that(2)] that(1)
      show ?thesis by auto
    qed
    from pn a b c show ?thesis by blast
  qed
qed


theorem parse_properties_required_witness:
  "from_dict literal_eval_keywords 5
     (JDict [(''type'', JStr ''object''),
        (''properties'', JDict [(''a'', JDict [(''type'', JStr ''string'')]),
                                (''b'', JDict [(''type'', JStr ''integer'')])]),
        (''required'', JList [JStr ''a''])])
   = Inr (Node None (Some OBJECT) None False JNull None
       (Some [(''a'', Node None (Some STRING) None True JNull None None None None None None None),
              (''b'', Node None (Some INTEGER) None False JNull None None None None None None None)])
       None None None None None) \<and>
   list_all (\<lambda>kp. required (snd kp) = (JStr (fst kp) \<in> set [JStr ''a'']))
     [(''a'', Node None (Some STRING) None True JNull None None None None None None None),
      (''b'', Node None (Some INTEGER) None False JNull None None None None None None None)] \<and>
   from_dict literal_eval_keywords 5
     (JDict [(''type'', JStr ''object''),
        (''properties'', JDict [(''a'', JDict [(''type'', JStr ''string'')])])])
   = Inr (Node None (Some OBJECT) None False JNull None
       (Some [(''a'', Node None (Some STRING) None False JNull None None None None None None None)])
       None None None None None) \<and>
   list_all (\<lambda>kp. \<not> required (snd kp))
     [(''a'', Node None (Some STRING) None False JNull None None None None None None None)]"
proof -
  let ?kvs = "[(''type'', JStr ''object''),
        (''properties'', JDict [(''a'', JDict [(''type'', JStr ''string'')]),
                                (''b'', JDict [(''type'', JStr ''integer'')])]),
        (''required'', JList [JStr ''a''])]"
  let ?node = "Node None (Some OBJECT) None False JNull None
       (Some [(''a'', Node None (Some STRING) None True JNull None None None None None None None),
              (''b'', Node None (Some INTEGER) None False JNull None None None None None None None)])
       None None None None None"
  let ?kvs2 = "[(''type'', JStr ''object''),
        (''properties'', JDict [(''a'', JDict [(''type'', JStr ''string'')])])]"
  let ?node2 = "Node None (Some OBJECT) None False JNull None
       (Some [(''a'', Node None (Some STRING) None False JNull None None None None None None None)])
       None None None None None"
  have d1: "from_dict literal_eval_keywords 5 (JDict ?kvs) = Inr ?node"
    by (simp add: eval_nat_numeral has_key_def dict_get_def definitions_of_def type_of_value_def
        set_required_def)
  have r1: "resolve (5 - 1) (JDict ?kvs) (definitions_of ?kvs) = Inr (JDict ?kvs)"
    by (simp add: eval_nat_numeral has_key_def definitions_of_def)
  have t1: "dict_get ?kvs ''type'' = JStr ''object''"
    by (simp add: dict_get_def)
  have d2: "from_dict literal_eval_keywords 5 (JDict ?kvs2) = Inr ?node2"
    by (simp add: eval_nat_numeral has_key_def dict_get_def definitions_of_def type_of_value_def
        set_required_def)
  have r2: "resolve (5 - 1) (JDict ?kvs2) (definitions_of ?kvs2) = Inr (JDict ?kvs2)"
    by (simp add: eval_nat_numeral has_key_def definitions_of_def)
  have t2: "dict_get ?kvs2 ''type'' = JStr ''object''"
    by (simp add: dict_get_def)
  have k2: "\<not> has_key ?kvs2 ''required''"
    by (simp add: has_key_def)
  have q1: "dict_get ?kvs ''required'' = JList [JStr ''a'']"
    by (simp add: dict_get_def)
  from parse_properties_required[OF d1 r1 t1] q1
  have "list_all (\<lambda>kp. required (snd kp) = (JStr (fst kp) \<in> set [JStr ''a'']))
     [(''a'', Node None (Some STRING) None True JNull None None None None None None None),
      (''b'', Node None (Some INTEGER) None False JNull None None None None None None None)]"
    by (simp add: list_all_iff)
  moreover from parse_properties_required[OF d2 r2 t2] k2
  have "list_all (\<lambda>kp. \<not> required (snd kp))
     [(''a'', Node None (Some STRING) None False JNull None None None None None None None)]"
    by (simp add: list_all_iff)
  ultimately show ?thesis
    using d1 d2 by simp
qed

section \<open>The frame of the resolver\<close>

lemma deref_append: "deref h a = Some ob \<Longrightarrow> deref (h @ ext) a = Some ob"
  by (auto simp: deref_def nth_append split: if_splits)

lemma fresh_tree_append: "fresh_tree n k h a \<Longrightarrow> fresh_tree n k (h @ ext) a"
proof (induction n arbitrary: a)
  case 0
  then show ?case by simp
next
  case (Suc n)
  from Suc.prems obtain ob where ob: "deref h a = Some ob"
    by (cases "deref h a") auto
  then have ob': "deref (h @ ext) a = Some ob"
    by (rule deref_append)
  show ?case
  proof (cases ob)
    case (ListObj xs)
    with Suc.prems ob have "k \<le> a" "\<forall>x \<in> set xs. fresh_tree n k h x"
      by (simp_all add: list_all_iff)
    with Suc.IH ob' ListObj show ?thesis
      by (simp add: list_all_iff)
  next
    case (DictObj kvs)
    with Suc.prems ob have "k \<le> a" "\<forall>kv \<in> set kvs. fresh_tree n k h (snd kv)"
      by (simp_all add: list_all_iff)
    with Suc.IH ob' DictObj show ?thesis
      by (simp add: list_all_iff)
  qed (use ob' in simp_all)
qed

lemma fresh_tree_lower: "fresh_tree n k h a \<Longrightarrow> k' \<le> k \<Longrightarrow> fresh_tree n k' h a"
proof (induction n arbitrary: a)
  case 0
  then show ?case by simp
next
  case (Suc n)
  from Suc.prems obtain ob where ob: "deref h a = Some ob"
    by (cases "deref h a") auto
  show ?case
  proof (cases ob)
    case (ListObj xs)
    with Suc.prems ob have "k \<le> a" "\<forall>x \<in> set xs. fresh_tree n k h x"
      by (simp_all add: list_all_iff)
    with Suc.IH Suc.prems(2) ob ListObj show ?thesis
      by (simp add: list_all_iff)
  next
    case (DictObj kvs)
    with Suc.prems ob have "k \<le> a" "\<forall>kv \<in> set kvs. fresh_tree n k h (snd kv)"
      by (simp_all add: list_all_iff)
    with Suc.IH Suc.prems(2) ob DictObj show ?thesis
      by (simp add: list_all_iff)
  qed (use ob in simp_all)
qed

lemma fresh_tree_deeper: "fresh_tree n k h a \<Longrightarrow> fresh_tree (Suc n) k h a"
proof (induction n arbitrary: a)
  case 0
  then show ?case by simp
next
  case (Suc n)
  from Suc.prems obtain ob where ob: "deref h a = Some ob"
    by (cases "deref h a") auto
  show ?case
  proof (cases ob)
    case (ListObj xs)
    with Suc.prems ob have "k \<le> a" "\<forall>x \<in> set xs. fresh_tree n k h x"
      by (simp_all add: list_all_iff)
    with Suc.IH have "k \<le> a" "\<forall>x \<in> set xs. fresh_tree (Suc n) k h x"
      by blast+
    with ob ListObj show ?thesis
      using fresh_tree.simps(2)[of "Suc n" k h a] by (simp add: list_all_iff)
  next
    case (DictObj kvs)
    with Suc.prems ob have "k \<le> a" "\<forall>kv \<in> set kvs. fresh_tree n k h (snd kv)"
      by (simp_all add: list_all_iff)
    with Suc.IH have "k \<le> a" "\<forall>kv \<in> set kvs. fresh_tree (Suc n) k h (snd kv)"
      by blast+
    with ob DictObj show ?thesis
      using fresh_tree.simps(2)[of "Suc n" k h a] by (simp add: list_all_iff)
  qed (use ob in simp_all)
qed

lemma mapM_s_frame:
  assumes step: "\<And>h1 x y h2. x \<in> set xs \<Longrightarrow> f h1 x = Inr (y, h2) \<Longrightarrow>
      (\<exists>ext. h2 = h1 @ ext) \<and> Q (length h1) h2 y"
    and store: "\<And>k h1 y ext. Q k h1 y \<Longrightarrow> Q k (h1 @ ext) y"
    and lower: "\<And>k k' h1 y. Q k h1 y \<Longrightarrow> k' \<le> k \<Longrightarrow> Q k' h1 y"
    and run: "mapM_s f h xs = Inr (ys, h')"
  shows "(\<exists>ext. h' = h @ ext) \<and> (\<forall>y \<in> set ys. Q (length h) h' y)"
  using step run
proof (induction xs arbitrary: h ys h')
  case Nil
  then show ?case by simp
next
  case (Cons x xs)
  from Cons.prems(2) obtain y h1 ys' where
    fx: "f h x = Inr (y, h1)" and rest: "mapM_s f h1 xs = Inr (ys', h')" and ys: "ys = y # ys'"
    by (auto split: sum.splits prod.splits)
  from Cons.prems(1)[OF _ fx] obtain ext1 where h1: "h1 = h @ ext1" and qy: "Q (length h) h1 y"
    by auto
  have "(\<exists>ext. h' = h1 @ ext) \<and> (\<forall>y \<in> set ys'. Q (length h1) h' y)"
  proof (rule Cons.IH[OF _ rest])
    fix h2 x' y' h3
    assume "x' \<in> set xs" "f h2 x' = Inr (y', h3)"
    then show "(\<exists>ext. h3 = h2 @ ext) \<and> Q (length h2) h3 y'"
      using Cons.prems(1)[of x' h2 y' h3] by simp
  qed
  then obtain ext2 where h': "h' = h1 @ ext2" and qs: "\<forall>y \<in> set ys'. Q (length h1) h' y"
    by blast
  have "Q (length h) h' y"
    using store[OF qy, of ext2] h' by simp
  moreover have "Q (length h) h' y'" if "y' \<in> set ys'" for y'
    using lower[of "length h1" h' y' "length h"] qs that h1 by simp
  moreover have "h' = h @ (ext1 @ ext2)"
    using h1 h' by simp
  ultimately show ?case
    using ys by auto
qed

lemma resolve_s_extends_fresh:
  "resolve_s n h a d = Inr (r, h') \<Longrightarrow> (\<exists>ext. h' = h @ ext) \<and> fresh_tree n (length h) h' r"
proof (induction n arbitrary: h a r h')
  case 0
  then show ?case by simp
next
  case (Suc n)
  from Suc.prems obtain ob where ob: "deref h a = Some ob"
    by (cases "deref h a") auto
  show ?case
  proof (cases ob)
    case (ListObj xs)
    with Suc.prems ob obtain ys h1 where
      run: "mapM_s (\<lambda>h1 item. resolve_s n h1 item d) h xs = Inr (ys, h1)"
      and r: "r = length h1" and h': "h' = h1 @ [ListObj ys]"
      by (auto simp: alloc_def split: sum.splits prod.splits)
    have "(\<exists>ext. h1 = h @ ext) \<and> (\<forall>y \<in> set ys. fresh_tree n (length h) h1 y)"
      by (rule mapM_s_frame[where Q = "fresh_tree n", OF _ _ _ run])
        (use Suc.IH fresh_tree_append fresh_tree_lower in blast)+
    then obtain ext where h1: "h1 = h @ ext" and f: "\<forall>y \<in> set ys. fresh_tree n (length h) h1 y"
      by blast
    have "\<forall>y \<in> set ys. fresh_tree n (length h) h' y"
      using f fresh_tree_append h' by blast
    moreover have "deref h' r = Some (ListObj ys)"
      using r h' by (simp add: deref_def)
    moreover have "length h \<le> r" using r h1 by simp
    ultimately have "fresh_tree (Suc n) (length h) h' r"
      by (simp add: list_all_iff)
    moreover have "h' = h @ (ext @ [ListObj ys])" using h1 h' by simp
    ultimately show ?thesis by blast
  next
    case (DictObj kvs)
    show ?thesis
    proof (cases "has_key kvs ''$ref''")
      case True
      with Suc.prems ob DictObj obtain fragment where "resolve_s n h fragment d = Inr (r, h')"
        by (auto split: option.splits obj.splits sum.splits)
      from Suc.IH[OF this] show ?thesis
        using fresh_tree_deeper by blast
    next
      case False
      let ?f = "\<lambda>h1 (k, v). case resolve_s n h1 v d of
                                        Inl e \<Rightarrow> Inl e
                                      | Inr (v', h2) \<Rightarrow> Inr ((k, v'), h2)"
      from False Suc.prems ob DictObj obtain kvs' h1 where
        run: "mapM_s ?f h kvs = Inr (kvs', h1)"
        and r: "r = length h1" and h': "h' = h1 @ [DictObj kvs']"
        by (auto simp: alloc_def split: sum.splits prod.splits)
      have "(\<exists>ext. h1 = h @ ext) \<and> (\<forall>y \<in> set kvs'. fresh_tree n (length h) h1 (snd y))"
      proof (rule mapM_s_frame[where Q = "\<lambda>k h y. fresh_tree n k h (snd y)", OF _ _ _ run])
        fix h2 x y h3
        assume "?f h2 x = Inr (y, h3)"
        then have "resolve_s n h2 (snd x) d = Inr (snd y, h3)"
          by (cases x) (auto split: sum.splits prod.splits)
        from Suc.IH[OF this]
        show "(\<exists>ext. h3 = h2 @ ext) \<and> fresh_tree n (length h2) h3 (snd y)" .
      qed (use fresh_tree_append fresh_tree_lower in blast)+
      then obtain ext where h1: "h1 = h @ ext"
        and f: "\<forall>y \<in> set kvs'. fresh_tree n (length h) h1 (snd y)"
        by blast
      have "\<forall>y \<in> set kvs'. fresh_tree n (length h) h' (snd y)"
        using f fresh_tree_append h' by blast
      moreover have "deref h' r = Some (DictObj kvs')"
        using r h' by (simp add: deref_def)
      moreover have "length h \<le> r" using r h1 by simp
      ultimately have "fresh_tree (Suc n) (length h) h' r"
        by (simp add: list_all_iff)
      moreover have "h' = h @ (ext @ [DictObj kvs'])" using h1 h' by simp
      ultimately show ?thesis by blast
    qed
  qed (use Suc.prems ob in \<open>auto simp: \<close>)
qed

lemma those_list_map_cong:
  assumes "those_list (map f xs) = Some ys"
    and "\<And>x y. x \<in> set xs \<Longrightarrow> f x = Some y \<Longrightarrow> g x = Some y"
  shows "those_list (map g xs) = Some ys"
  using assms
proof (induction xs arbitrary: ys)
  case Nil
  then show ?case by simp
next
  case (Cons x xs)
  from Cons.prems(1) obtain y ys' where "f x = Some y" "those_list (map f xs) = Some ys'" "ys = y # ys'"
    by (auto split: option.splits)
  with Cons.IH[of ys'] Cons.prems(2) show ?case
    by simp
qed

lemma value_at_append: "value_at m h a = Some v \<Longrightarrow> value_at m (h @ ext) a = Some v"
proof (induction m arbitrary: a v)
  case 0
  then show ?case by simp
next
  case (Suc m)
  from Suc.prems obtain ob where ob: "deref h a = Some ob"
    by (cases "deref h a") auto
  then have ob': "deref (h @ ext) a = Some ob"
    by (rule deref_append)
  show ?case
  proof (cases ob)
    case (ListObj xs)
    with Suc.prems ob obtain ys where "those_list (map (value_at m h) xs) = Some ys" "v = JList ys"
      by auto
    with those_list_map_cong[of "value_at m h" xs ys "value_at m (h @ ext)"] Suc.IH ob' ListObj
    show ?thesis by simp
  next
    case (DictObj kvs)
    with Suc.prems ob obtain ys where
      ys: "those_list (map (\<lambda>kv. map_option (Pair (fst kv)) (value_at m h (snd kv))) kvs) = Some ys"
      and v: "v = JDict ys"
      by auto
    have "those_list (map (\<lambda>kv. map_option (Pair (fst kv)) (value_at m (h @ ext) (snd kv))) kvs)
        = Some ys"
    proof (rule those_list_map_cong[OF ys])
      fix kv y
      assume "map_option (Pair (fst kv)) (value_at m h (snd kv)) = Some y"
      then show "map_option (Pair (fst kv)) (value_at m (h @ ext) (snd kv)) = Some y"
        using Suc.IH by auto
    qed
    with v ob' DictObj show ?thesis
      by simp
  qed (use Suc.prems ob ob' in auto)
qed

text \<open>
  C10. When the resolution succeeds, the store it returns is the store it was given with
  new objects after it: every object that was there is unchanged, so the document and the
  table denote the values they denoted before; and every list and dict of the result,
  at any depth, is at an address that was not in use before the call.
\<close>

theorem resolve_s_frame:
  assumes "resolve_s n h schema definitions = Inr (r, h')"
  shows "take (length h) h' = h \<and>
     (value_at m h schema = Some doc \<longrightarrow> value_at m h' schema = Some doc) \<and>
     (value_at m h definitions = Some table \<longrightarrow> value_at m h' definitions = Some table) \<and>
     fresh_tree n (length h) h' r"
proof -
  from resolve_s_extends_fresh[OF assms] obtain ext where
    "h' = h @ ext" "fresh_tree n (length h) h' r"
    by blast
  then show ?thesis
    by (simp add: value_at_append)
qed


theorem resolve_s_frame_witness:
  "resolve_s 4
     [StrObj ''#/definitions/Foo'', DictObj [(''$ref'', 0)], StrObj ''string'',
      DictObj [(''type'', 2)], DictObj [(''Foo'', 3)], DictObj [(''a'', 1)]] 5 4
   = Inr (7,
     [StrObj ''#/definitions/Foo'', DictObj [(''$ref'', 0)], StrObj ''string'',
      DictObj [(''type'', 2)], DictObj [(''Foo'', 3)], DictObj [(''a'', 1)],
      DictObj [(''type'', 2)], DictObj [(''a'', 6)]]) \<and>
   value_at 3
     [StrObj ''#/definitions/Foo'', DictObj [(''$ref'', 0)], StrObj ''string'',
      DictObj [(''type'', 2)], DictObj [(''Foo'', 3)], DictObj [(''a'', 1)],
      DictObj [(''type'', 2)], DictObj [(''a'', 6)]] 5
   = Some (JDict [(''a'', JDict [(''$ref'', JStr ''#/definitions/Foo'')])]) \<and>
   value_at 3
     [StrObj ''#/definitions/Foo'', DictObj [(''$ref'', 0)], StrObj ''string'',
      DictObj [(''type'', 2)], DictObj [(''Foo'', 3)], DictObj [(''a'', 1)],
      DictObj [(''type'', 2)], DictObj [(''a'', 6)]] 4
   = Some (JDict [(''Foo'', JDict [(''type'', JStr ''string'')])]) \<and>
   fresh_tree 4 6
     [StrObj ''#/definitions/Foo'', DictObj [(''$ref'', 0)], StrObj ''string'',
      DictObj [(''type'', 2)], DictObj [(''Foo'', 3)], DictObj [(''a'', 1)],
      DictObj [(''type'', 2)], DictObj [(''a'', 6)]] 7"
proof -
  let ?h = "[StrObj ''#/definitions/Foo'', DictObj [(''$ref'', 0)], StrObj ''string'',
      DictObj [(''type'', 2)], DictObj [(''Foo'', 3)], DictObj [(''a'', 1)]]"
  let ?h' = "?h @ [DictObj [(''type'', 2)], DictObj [(''a'', 6)]]"
  have run: "resolve_s 4 ?h 5 4 = Inr (7, ?h')"
    by (simp add: eval_nat_numeral deref_def has_key_def alloc_def ref_path_def)
  have doc: "value_at 3 ?h 5 = Some (JDict [(''a'', JDict [(''$ref'', JStr ''#/definitions/Foo'')])])"
    by (simp add: eval_nat_numeral deref_def)
  have table: "value_at 3 ?h 4 = Some (JDict [(''Foo'', JDict [(''type'', JStr ''string'')])])"
    by (simp add: eval_nat_numeral deref_def)
  have len: "length ?h = 6"
    by simp
  from resolve_s_frame[OF run, of 3 "JDict [(''a'', JDict [(''$ref'', JStr ''#/definitions/Foo'')])]"
      "JDict [(''Foo'', JDict [(''type'', JStr ''string'')])]"] doc table
  have "value_at 3 ?h' 5 = Some (JDict [(''a'', JDict [(''$ref'', JStr ''#/definitions/Foo'')])]) \<and>
    value_at 3 ?h' 4 = Some (JDict [(''Foo'', JDict [(''type'', JStr ''string'')])]) \<and>
    fresh_tree 4 (length ?h) ?h' 7"
    by blast
  then have "value_at 3 ?h' 5 = Some (JDict [(''a'', JDict [(''$ref'', JStr ''#/definitions/Foo'')])]) \<and>
    value_at 3 ?h' 4 = Some (JDict [(''Foo'', JDict [(''type'', JStr ''string'')])]) \<and>
    fresh_tree 4 6 ?h' 7"
    unfolding len .
  with run show ?thesis
    by simp
qed

end
